theory Spec2Isabelle
  imports Complex_Main "HOL-Library.Sublist" "HOL-Library.Multiset"
begin

section \<open>Strings\<close>

text \<open>
  A JavaScript string is modelled as a \<^typ>\<open>string\<close>, one \<^typ>\<open>char\<close> per code unit, so
  the model covers the strings whose code units are below 256. The functions below are
  the string built-ins the validator and the expression builder call: \<^verbatim>\<open>toLowerCase\<close>,
  \<^verbatim>\<open>includes\<close>, \<^verbatim>\<open>split\<close>, \<^verbatim>\<open>join\<close> and the decimal rendering of an array index
  inside a template literal. \<open>toLowerCase\<close> maps the letters A to Z and leaves every other
  code unit as it is: the source only searches the result for tokens made of ASCII
  characters, and the letters beyond ASCII are mapped to letters beyond ASCII, one for one.
\<close>

definition upperLetters :: string where
  "upperLetters = ''ABCDEFGHIJKLMNOPQRSTUVWXYZ''"

definition lowerLetters :: string where
  "lowerLetters = ''abcdefghijklmnopqrstuvwxyz''"

definition digitChars :: string where
  "digitChars = ''0123456789''"

definition toLowerChar :: "char \<Rightarrow> char" where
  "toLowerChar c = (case map_of (zip upperLetters lowerLetters) c of Some l \<Rightarrow> l | None \<Rightarrow> c)"

definition toLowerCase :: "string \<Rightarrow> string" where
  "toLowerCase s = map toLowerChar s"

text \<open>\<^verbatim>\<open>s.includes(p)\<close>: \<open>p\<close> occurs in \<open>s\<close> as a contiguous block.\<close>

fun str_includes :: "string \<Rightarrow> string \<Rightarrow> bool" where
  "str_includes [] p = (p = [])"
| "str_includes (c # cs) p = (prefix p (c # cs) \<or> str_includes cs p)"

text \<open>\<^verbatim>\<open>s.split(d)\<close> for a one-character separator; the empty string splits to \<open>[""]\<close>.\<close>

fun splitOn :: "char \<Rightarrow> string \<Rightarrow> string list" where
  "splitOn d [] = [[]]"
| "splitOn d (c # cs) =
     (if c = d then [] # splitOn d cs
      else (case splitOn d cs of [] \<Rightarrow> [[c]] | p # ps \<Rightarrow> (c # p) # ps))"

text \<open>\<^verbatim>\<open>parts.join(sep)\<close>.\<close>

fun joinWith :: "string \<Rightarrow> string list \<Rightarrow> string" where
  "joinWith sep [] = []"
| "joinWith sep [x] = x"
| "joinWith sep (x # y # ys) = x @ sep @ joinWith sep (y # ys)"

text \<open>The decimal text of a non-negative integer, as a template literal renders an index.\<close>

fun natToString :: "nat \<Rightarrow> string" where
  "natToString n =
     (if n < 10 then [digitChars ! n]
      else natToString (n div 10) @ [digitChars ! (n mod 10)])"

declare natToString.simps [simp del]

section \<open>Errors\<close>

text \<open>
  Every \<^verbatim>\<open>throw\<close> of the source is a value: \<open>DynamoValidationError\<close> carries the
  message, \<open>TypeError\<close> is what the runtime raises on a property read of
  \<^verbatim>\<open>null\<close>/\<^verbatim>\<open>undefined\<close> or on a call of something that is not a function.
\<close>

datatype error = DynamoValidationError string | TypeError string

type_synonym 'a result = "error + 'a"

definition bind_result :: "'a result \<Rightarrow> ('a \<Rightarrow> 'b result) \<Rightarrow> 'b result" where
  "bind_result r f = (case r of Inl e \<Rightarrow> Inl e | Inr x \<Rightarrow> f x)"

text \<open>\<^verbatim>\<open>xs.forEach(f)\<close> for an \<open>f\<close> that may throw: the first throw ends the loop.\<close>

fun forEach :: "('a \<Rightarrow> unit result) \<Rightarrow> 'a list \<Rightarrow> unit result" where
  "forEach f [] = Inr ()"
| "forEach f (x # xs) = (case f x of Inl e \<Rightarrow> Inl e | Inr _ \<Rightarrow> forEach f xs)"

text \<open>\<^verbatim>\<open>xs.map(f)\<close> for an \<open>f\<close> that may throw.\<close>

fun mapResult :: "('a \<Rightarrow> 'b result) \<Rightarrow> 'a list \<Rightarrow> 'b list result" where
  "mapResult f [] = Inr []"
| "mapResult f (x # xs) =
     (case f x of Inl e \<Rightarrow> Inl e
      | Inr y \<Rightarrow> (case mapResult f xs of Inl e \<Rightarrow> Inl e | Inr ys \<Rightarrow> Inr (y # ys)))"

section \<open>Values\<close>

text \<open>
  A JavaScript number is a double. A finite number is modelled by the rational it denotes
  (\<open>-0\<close> is \<open>0\<close>: the code never tells them apart). The tests the code makes on a number
  (for zero, for being an integer, \<^verbatim>\<open>>=\<close>) and the truncation of a slice bound are exact on
  doubles and are modelled below. A sum or a difference of doubles is rounded: like the
  printing and the parsing of numbers it is a built-in of the runtime and is taken as a
  parameter, see \<open>runtime\<close> below.
\<close>

datatype jsnum = NaN | PInf | NInf | Fin rat

text \<open>
  The values the code handles: filter values, pagination fields, wire values
  (\<^verbatim>\<open>AttributeValue\<close>, an object with one tag property) and raw items. They are data:
  primitives, arrays and plain objects, as \<^verbatim>\<open>JSON.parse\<close> yields them. An object is the
  list of its own properties in the order \<^verbatim>\<open>Object.entries\<close> gives them; its prototype is
  \<^verbatim>\<open>Object.prototype\<close>. A function is not data.
\<close>

datatype jsval =
    JUndefined
  | JNull
  | JBool bool
  | JNum jsnum
  | JStr string
  | JArr "jsval list"
  | JObj "(string \<times> jsval) list"

text \<open>
  What a property read \<^verbatim>\<open>v[k]\<close> finds: an own property of \<open>v\<close> (\<^verbatim>\<open>undefined\<close> when there is no
  property of that name at all), or a member that \<open>v\<close> inherits from its prototype. The
  members a plain object inherits are the methods of \<^verbatim>\<open>Object.prototype\<close> (\<^verbatim>\<open>toString\<close>,
  \<^verbatim>\<open>valueOf\<close>, \<^verbatim>\<open>constructor\<close>, ...) and, under \<^verbatim>\<open>__proto__\<close>, that prototype itself:
  functions and one object, every one of them truthy and none of them data.
\<close>

datatype property = Own jsval | Inherited string

text \<open>
  The built-ins of the runtime that the source calls and that are not modelled further:
  \<^verbatim>\<open>Number.prototype.toString\<close>, \<^verbatim>\<open>parseFloat\<close> on a string, \<^verbatim>\<open>Number\<close> on a string,
  \<^verbatim>\<open>String.prototype.localeCompare\<close> (negative, zero or positive), the sum and the
  difference of two numbers, the names of the members of \<^verbatim>\<open>Object.prototype\<close>, and what a
  property read finds on a boolean, a number, a string or an array.
\<close>

record runtime =
  numToString :: "jsnum \<Rightarrow> string"
  parseFloatStr :: "string \<Rightarrow> jsnum"
  stringToNumber :: "string \<Rightarrow> jsnum"
  localeCompare :: "string \<Rightarrow> string \<Rightarrow> int"
  numAdd :: "jsnum \<Rightarrow> jsnum \<Rightarrow> jsnum"
  numSub :: "jsnum \<Rightarrow> jsnum \<Rightarrow> jsnum"
  prototypeMembers :: "string list"
  memberOfOther :: "jsval \<Rightarrow> string \<Rightarrow> property"

fun typeof :: "jsval \<Rightarrow> string" where
  "typeof JUndefined = ''undefined''"
| "typeof JNull = ''object''"
| "typeof (JBool b) = ''boolean''"
| "typeof (JNum n) = ''number''"
| "typeof (JStr s) = ''string''"
| "typeof (JArr xs) = ''object''"
| "typeof (JObj es) = ''object''"

text \<open>\<^verbatim>\<open>!v\<close> is \<open>\<not> truthy v\<close>.\<close>

fun truthy :: "jsval \<Rightarrow> bool" where
  "truthy JUndefined = False"
| "truthy JNull = False"
| "truthy (JBool b) = b"
| "truthy (JNum n) = (n \<noteq> NaN \<and> n \<noteq> Fin 0)"
| "truthy (JStr s) = (s \<noteq> [])"
| "truthy (JArr xs) = True"
| "truthy (JObj es) = True"

fun isArray :: "jsval \<Rightarrow> bool" where
  "isArray (JArr xs) = True"
| "isArray _ = False"

text \<open>
  \<^verbatim>\<open>String(v)\<close>. An array is joined from the strings of its elements, the empty string for
  \<^verbatim>\<open>null\<close> and \<^verbatim>\<open>undefined\<close>. A plain object is converted by the \<^verbatim>\<open>toString\<close> it inherits,
  which gives \<^verbatim>\<open>[object Object]\<close>, unless it has an own property of that name: the value
  of that property is data and cannot be called, the inherited \<^verbatim>\<open>valueOf\<close> returns the
  object itself, and the conversion raises a \<^verbatim>\<open>TypeError\<close>.
\<close>

fun toStr :: "runtime \<Rightarrow> jsval \<Rightarrow> string result"
  and toStrs :: "runtime \<Rightarrow> jsval list \<Rightarrow> string list result"
where
  "toStr rt JUndefined = Inr ''undefined''"
| "toStr rt JNull = Inr ''null''"
| "toStr rt (JBool b) = Inr (if b then ''true'' else ''false'')"
| "toStr rt (JNum n) = Inr (numToString rt n)"
| "toStr rt (JStr s) = Inr s"
| "toStr rt (JArr xs) =
     (case toStrs rt xs of Inl e \<Rightarrow> Inl e | Inr ss \<Rightarrow> Inr (joinWith '','' ss))"
| "toStr rt (JObj es) =
     (if ''toString'' \<in> set (map fst es)
      then Inl (TypeError ''Cannot convert object to primitive value'')
      else Inr ''[object Object]'')"
| "toStrs rt [] = Inr []"
| "toStrs rt (x # xs) =
     (case (if x = JUndefined \<or> x = JNull then Inr [] else toStr rt x) of
        Inl e \<Rightarrow> Inl e
      | Inr s \<Rightarrow> (case toStrs rt xs of Inl e \<Rightarrow> Inl e | Inr ss \<Rightarrow> Inr (s # ss)))"

text \<open>\<^verbatim>\<open>n.toString()\<close> on a value whose \<^verbatim>\<open>typeof\<close> is \<^verbatim>\<open>number\<close>.\<close>

definition numberToString :: "runtime \<Rightarrow> jsval \<Rightarrow> string" where
  "numberToString rt v = (case v of JNum n \<Rightarrow> numToString rt n | _ \<Rightarrow> [])"

text \<open>\<^verbatim>\<open>parseFloat(v)\<close> converts its argument to a string first.\<close>

definition parseFloat :: "runtime \<Rightarrow> jsval \<Rightarrow> jsnum result" where
  "parseFloat rt v =
     (case toStr rt v of Inl e \<Rightarrow> Inl e | Inr s \<Rightarrow> Inr (parseFloatStr rt s))"



text \<open>
  \<^verbatim>\<open>v[k]\<close> for the property names the source reads (\<^verbatim>\<open>S\<close>, \<^verbatim>\<open>N\<close>, \<^verbatim>\<open>BOOL\<close>, \<^verbatim>\<open>SS\<close>,
  \<^verbatim>\<open>NS\<close>, \<^verbatim>\<open>M\<close>, \<^verbatim>\<open>L\<close>, \<^verbatim>\<open>page\<close>, \<^verbatim>\<open>size\<close>, \<^verbatim>\<open>limit\<close>, \<^verbatim>\<open>offset\<close>, \<^verbatim>\<open>sortBy\<close>,
  \<^verbatim>\<open>sortDirection\<close>) on a value that is not \<^verbatim>\<open>null\<close> or \<^verbatim>\<open>undefined\<close>: primitives and
  arrays have none of them, and no prototype has a member of one of these names, so the
  read finds an own property of a plain object or nothing. A read under a name that the
  caller chooses is \<open>member\<close> below.
\<close>

fun getProp :: "jsval \<Rightarrow> string \<Rightarrow> jsval" where
  "getProp (JObj es) k = (case map_of es k of Some x \<Rightarrow> x | None \<Rightarrow> JUndefined)"
| "getProp _ k = JUndefined"

text \<open>
  \<^verbatim>\<open>obj[k] = v\<close> on a plain object: an existing own property keeps its place, a new one
  goes last. The key \<^verbatim>\<open>__proto__\<close> reaches the setter inherited from
  \<^verbatim>\<open>Object.prototype\<close>, which creates no own property.
\<close>

fun update :: "string \<Rightarrow> 'a \<Rightarrow> (string \<times> 'a) list \<Rightarrow> (string \<times> 'a) list" where
  "update k v [] = [(k, v)]"
| "update k v (p # ps) = (if fst p = k then (k, v) # ps else p # update k v ps)"

definition setProp :: "string \<Rightarrow> 'a \<Rightarrow> (string \<times> 'a) list \<Rightarrow> (string \<times> 'a) list" where
  "setProp k v es = (if k = ''__proto__'' then es else update k v es)"

text \<open>\<^verbatim>\<open>Object.entries(v)\<close> of a plain object or an array.\<close>

fun objectEntries :: "jsval \<Rightarrow> (string \<times> jsval) list" where
  "objectEntries (JObj es) = es"
| "objectEntries (JArr xs) = zip (map natToString [0..<length xs]) xs"
| "objectEntries _ = []"

section \<open>The value codec (DynamoUtils.ts)\<close>

fun toDynamoDBValue :: "runtime \<Rightarrow> jsval \<Rightarrow> jsval result"
  and toDynamoDBValues :: "runtime \<Rightarrow> jsval list \<Rightarrow> jsval list result"
  and toDynamoDBEntries ::
    "runtime \<Rightarrow> (string \<times> jsval) list \<Rightarrow> (string \<times> jsval) list \<Rightarrow> (string \<times> jsval) list result"
where
  "toDynamoDBValue rt JNull = Inl (DynamoValidationError ''Value cannot be null or undefined'')"
| "toDynamoDBValue rt JUndefined = Inl (DynamoValidationError ''Value cannot be null or undefined'')"
| "toDynamoDBValue rt (JStr s) = Inr (JObj [(''S'', JStr s)])"
| "toDynamoDBValue rt (JNum n) = Inr (JObj [(''N'', JStr (numToString rt n))])"
| "toDynamoDBValue rt (JBool b) = Inr (JObj [(''BOOL'', JBool b)])"
| "toDynamoDBValue rt (JArr xs) =
     (if xs = [] then Inl (DynamoValidationError ''Empty arrays not supported'')
      else if list_all (\<lambda>item. typeof item = typeof (hd xs)) xs \<and> typeof (hd xs) = ''string''
      then Inr (JObj [(''SS'', JArr xs)])
      else if list_all (\<lambda>item. typeof item = typeof (hd xs)) xs \<and> typeof (hd xs) = ''number''
      then Inr (JObj [(''NS'', JArr (map (\<lambda>n. JStr (numberToString rt n)) xs))])
      else (case toDynamoDBValues rt xs of
              Inl e \<Rightarrow> Inl e
            | Inr ys \<Rightarrow> Inr (JObj [(''L'', JArr ys)])))"
| "toDynamoDBValue rt (JObj es) =
     (case toDynamoDBEntries rt es [] of
        Inl e \<Rightarrow> Inl e
      | Inr mapVal \<Rightarrow> Inr (JObj [(''M'', JObj mapVal)]))"
| "toDynamoDBValues rt [] = Inr []"
| "toDynamoDBValues rt (x # xs) =
     (case toDynamoDBValue rt x of
        Inl e \<Rightarrow> Inl e
      | Inr y \<Rightarrow> (case toDynamoDBValues rt xs of Inl e \<Rightarrow> Inl e | Inr ys \<Rightarrow> Inr (y # ys)))"
| "toDynamoDBEntries rt [] mapVal = Inr mapVal"
| "toDynamoDBEntries rt ((k, v) # es) mapVal =
     (case toDynamoDBValue rt v of
        Inl e \<Rightarrow> Inl e
      | Inr w \<Rightarrow> toDynamoDBEntries rt es (setProp k w mapVal))"

text \<open>The measure of the decoder's recursion: every entry counts its value and one more.\<close>

definition entriesSize :: "(string \<times> jsval) list \<Rightarrow> nat" where
  "entriesSize es = sum_list (map (\<lambda>e. Suc (size (snd e))) es)"

definition valuesSize :: "jsval list \<Rightarrow> nat" where
  "valuesSize vs = sum_list (map (\<lambda>v. Suc (size v)) vs)"

lemma size_map_of: "map_of es k = Some x \<Longrightarrow> size x < size (JObj es)"
  by (induction es) (auto split: if_splits)

lemma size_getProp: "getProp v k \<noteq> JUndefined \<Longrightarrow> size (getProp v k) < size v"
  by (cases v) (auto split: option.splits dest: size_map_of)

lemma valuesSize_le: "valuesSize xs < size (JArr xs)"
  by (induction xs) (auto simp: valuesSize_def)

lemma entriesSize_JObj: "entriesSize es < size (JObj es)"
  by (induction es) (auto simp: entriesSize_def)

lemma entriesSize_zip: "entriesSize (zip ks xs) \<le> valuesSize xs"
proof (induction xs arbitrary: ks)
  case Nil
  then show ?case by (simp add: entriesSize_def valuesSize_def)
next
  case (Cons x xs)
  then show ?case by (cases ks) (auto simp: entriesSize_def valuesSize_def)
qed

lemma entriesSize_objectEntries: "entriesSize (objectEntries item) \<le> size item"
proof (cases item)
  case (JArr xs)
  have "entriesSize (zip (map natToString [0..<length xs]) xs) \<le> valuesSize xs"
    by (rule entriesSize_zip)
  with valuesSize_le [of xs] JArr show ?thesis by simp
next
  case (JObj es)
  with entriesSize_JObj [of es] show ?thesis by simp
qed (simp_all add: entriesSize_def)

function fromDynamoDBValue :: "runtime \<Rightarrow> jsval \<Rightarrow> jsval result"
  and fromDynamoDBValues :: "runtime \<Rightarrow> jsval list \<Rightarrow> jsval list result"
  and mapDynamoDBItemToType :: "runtime \<Rightarrow> jsval \<Rightarrow> jsval result"
  and mapDynamoDBEntries ::
    "runtime \<Rightarrow> (string \<times> jsval) list \<Rightarrow> (string \<times> jsval) list \<Rightarrow> (string \<times> jsval) list result"
where
  "fromDynamoDBValue rt val =
     (if val = JNull \<or> val = JUndefined
      then Inl (TypeError ''Cannot read properties of null or undefined'')
      else if getProp val ''S'' \<noteq> JUndefined then Inr (getProp val ''S'')
      else if getProp val ''N'' \<noteq> JUndefined then
        (case parseFloat rt (getProp val ''N'') of Inl e \<Rightarrow> Inl e | Inr n \<Rightarrow> Inr (JNum n))
      else if getProp val ''BOOL'' \<noteq> JUndefined then Inr (getProp val ''BOOL'')
      else if getProp val ''SS'' \<noteq> JUndefined then Inr (getProp val ''SS'')
      else if getProp val ''NS'' \<noteq> JUndefined then
        (case getProp val ''NS'' of
           JArr ns \<Rightarrow> (case mapResult (parseFloat rt) ns of
                         Inl e \<Rightarrow> Inl e
                       | Inr ms \<Rightarrow> Inr (JArr (map JNum ms)))
         | JNull \<Rightarrow> Inl (TypeError ''Cannot read properties of null or undefined'')
         | _ \<Rightarrow> Inl (TypeError ''val.NS.map is not a function''))
      else if getProp val ''M'' \<noteq> JUndefined then mapDynamoDBItemToType rt (getProp val ''M'')
      else if getProp val ''L'' \<noteq> JUndefined then
        (case getProp val ''L'' of
           JArr vs \<Rightarrow> (case fromDynamoDBValues rt vs of
                         Inl e \<Rightarrow> Inl e
                       | Inr ds \<Rightarrow> Inr (JArr ds))
         | JNull \<Rightarrow> Inl (TypeError ''Cannot read properties of null or undefined'')
         | _ \<Rightarrow> Inl (TypeError ''val.L.map is not a function''))
      else Inr JNull)"
| "fromDynamoDBValues rt [] = Inr []"
| "fromDynamoDBValues rt (v # vs) =
     (case fromDynamoDBValue rt v of
        Inl e \<Rightarrow> Inl e
      | Inr d \<Rightarrow> (case fromDynamoDBValues rt vs of Inl e \<Rightarrow> Inl e | Inr ds \<Rightarrow> Inr (d # ds)))"
| "mapDynamoDBItemToType rt item =
     (if \<not> truthy item \<or> typeof item \<noteq> ''object'' then Inr (JObj [])
      else (case mapDynamoDBEntries rt (objectEntries item) [] of
              Inl e \<Rightarrow> Inl e
            | Inr r \<Rightarrow> Inr (JObj r)))"
| "mapDynamoDBEntries rt [] r = Inr r"
| "mapDynamoDBEntries rt ((key, val) # es) r =
     (if \<not> truthy val \<or> typeof val \<noteq> ''object'' then mapDynamoDBEntries rt es r
      else (case fromDynamoDBValue rt val of
              Inl e \<Rightarrow> Inl e
            | Inr d \<Rightarrow> mapDynamoDBEntries rt es (setProp key d r)))"
  by pat_completeness auto
termination
proof (relation "measure (\<lambda>x. case x of
          Inl (Inl (rt, v)) \<Rightarrow> 2 * size v
        | Inl (Inr (rt, vs)) \<Rightarrow> 2 * valuesSize vs
        | Inr (Inl (rt, item)) \<Rightarrow> 2 * size item + 1
        | Inr (Inr (rt, es, r)) \<Rightarrow> 2 * entriesSize es)", goal_cases)
  case 1
  then show ?case by simp
next
  case (2 rt val)
  then show ?case using size_getProp [of val "''M''"] by simp
next
  case (3 rt val vs)
  then have "size (getProp val ''L'') < size val" using size_getProp [of val "''L''"] by simp
  with 3 valuesSize_le [of vs] show ?case by simp
next
  case (4 rt v vs)
  then show ?case by (simp add: valuesSize_def)
next
  case (5 rt v vs d)
  then show ?case by (simp add: valuesSize_def)
next
  case (6 rt item)
  then show ?case using entriesSize_objectEntries [of item] by simp
next
  case (7 rt key val es r)
  then show ?case by (simp add: entriesSize_def)
next
  case (8 rt key val es r)
  then show ?case by (simp add: entriesSize_def)
next
  case (9 rt key val es r d)
  then show ?case by (simp add: entriesSize_def)
qed

declare fromDynamoDBValue.simps [simp del]
declare mapDynamoDBItemToType.simps [simp del]

section \<open>Field-name validation (DynamoValidator.ts)\<close>

definition MAX_FIELD_DEPTH :: nat where
  "MAX_FIELD_DEPTH = 20"

definition MAX_FIELD_LENGTH :: nat where
  "MAX_FIELD_LENGTH = 255"

definition MAX_VALUE_LENGTH :: nat where
  "MAX_VALUE_LENGTH = 400000"

text \<open>\<^verbatim>\<open>/^[a-zA-Z][a-zA-Z0-9_]*$/\<close>.\<close>

definition VALID_FIELD_REGEX :: "string \<Rightarrow> bool" where
  "VALID_FIELD_REGEX s =
     (case s of [] \<Rightarrow> False
      | c # cs \<Rightarrow> c \<in> set (lowerLetters @ upperLetters) \<and>
                 list_all (\<lambda>d. d \<in> set (lowerLetters @ upperLetters @ digitChars @ ''_'')) cs)"

definition UNSAFE_PATTERNS :: "string list" where
  "UNSAFE_PATTERNS =
     [''__proto__'', ''constructor'', ''prototype'', ''$'', '';'',
      ''DROP'', ''DELETE'', ''INSERT'', ''UPDATE'']"

definition validatePart :: "string \<Rightarrow> unit result" where
  "validatePart part =
     (if length part > MAX_FIELD_LENGTH
      then Inl (DynamoValidationError ''Field part length exceeds maximum of 255'')
      else if \<not> VALID_FIELD_REGEX part
      then Inl (DynamoValidationError (''Invalid characters in field name: '' @ part))
      else Inr ())"

definition validateFieldName :: "string \<Rightarrow> unit result" where
  "validateFieldName field =
     (if field = [] then Inl (DynamoValidationError ''Field name cannot be empty'')
      else if list_ex (\<lambda>pattern. str_includes (toLowerCase field) (toLowerCase pattern))
                UNSAFE_PATTERNS
      then Inl (DynamoValidationError (''Field name contains unsafe pattern: '' @ field))
      else if length (splitOn CHR ''.'' field) > MAX_FIELD_DEPTH
      then Inl (DynamoValidationError ''Field depth exceeds maximum of 20'')
      else forEach validatePart (splitOn CHR ''.'' field))"

section \<open>Value validation (DynamoValidator.ts)\<close>

text \<open>
  \<^verbatim>\<open>JSON.stringify\<close>, for values without a \<^verbatim>\<open>toJSON\<close> method. \<open>None\<close> is the result
  \<^verbatim>\<open>undefined\<close>; an \<^verbatim>\<open>undefined\<close> element of an array is written \<^verbatim>\<open>null\<close>, an \<^verbatim>\<open>undefined\<close>
  property is left out, a number that is not finite is written \<^verbatim>\<open>null\<close>.
\<close>

definition hexDigits :: string where
  "hexDigits = ''0123456789abcdef''"

definition jsonEscapeChar :: "char \<Rightarrow> string" where
  "jsonEscapeChar c =
     (if c = CHR 0x22 then [CHR 0x5C, CHR 0x22]
      else if c = CHR 0x5C then [CHR 0x5C, CHR 0x5C]
      else if c = CHR 0x08 then [CHR 0x5C, CHR ''b'']
      else if c = CHR 0x0C then [CHR 0x5C, CHR ''f'']
      else if c = CHR 0x0A then [CHR 0x5C, CHR ''n'']
      else if c = CHR 0x0D then [CHR 0x5C, CHR ''r'']
      else if c = CHR 0x09 then [CHR 0x5C, CHR ''t'']
      else if (of_char c :: nat) < 32
      then [CHR 0x5C, CHR ''u'', CHR ''0'', CHR ''0'',
            hexDigits ! ((of_char c :: nat) div 16), hexDigits ! ((of_char c :: nat) mod 16)]
      else [c])"

definition quoteJSON :: "string \<Rightarrow> string" where
  "quoteJSON s = CHR 0x22 # concat (map jsonEscapeChar s) @ [CHR 0x22]"

fun stringify :: "runtime \<Rightarrow> jsval \<Rightarrow> string option"
  and stringifyElements :: "runtime \<Rightarrow> jsval list \<Rightarrow> string list"
  and stringifyProperties :: "runtime \<Rightarrow> (string \<times> jsval) list \<Rightarrow> string list"
where
  "stringify rt JUndefined = None"
| "stringify rt JNull = Some ''null''"
| "stringify rt (JBool b) = Some (if b then ''true'' else ''false'')"
| "stringify rt (JNum n) = Some (case n of Fin r \<Rightarrow> numToString rt n | _ \<Rightarrow> ''null'')"
| "stringify rt (JStr s) = Some (quoteJSON s)"
| "stringify rt (JArr xs) = Some (''['' @ joinWith '','' (stringifyElements rt xs) @ '']'')"
| "stringify rt (JObj es) = Some (''{'' @ joinWith '','' (stringifyProperties rt es) @ ''}'')"
| "stringifyElements rt [] = []"
| "stringifyElements rt (x # xs) =
     (case stringify rt x of None \<Rightarrow> ''null'' | Some t \<Rightarrow> t) # stringifyElements rt xs"
| "stringifyProperties rt [] = []"
| "stringifyProperties rt ((k, v) # es) =
     (case stringify rt v of
        None \<Rightarrow> stringifyProperties rt es
      | Some t \<Rightarrow> (quoteJSON k @ '':'' @ t) # stringifyProperties rt es)"

definition dangerousPatterns :: "string list" where
  "dangerousPatterns =
     [''$where'', ''$regex'', ''$ne'', ''$gt'', ''$lt'', ''$gte'', ''$lte'',
      ''$in'', ''$nin'', ''$or'', ''$and'', ''$not'', ''$exists'', ''$type'',
      ''$mod'', ''$text'', ''$elemMatch'', ''$size'', ''$all'', ''$expr'',
      ''__proto__'', ''constructor'', ''prototype'']"

text \<open>
  The checks of \<open>validateValue\<close> that come before its recursion: the null test, the scan
  of the serialized value, and the length bound on a string.
\<close>

definition validateScalar :: "runtime \<Rightarrow> jsval \<Rightarrow> unit result" where
  "validateScalar rt v =
     (if v = JUndefined \<or> v = JNull
      then Inl (DynamoValidationError ''Value cannot be null or undefined'')
      else (case stringify rt v of
              None \<Rightarrow> Inl (TypeError ''Cannot read properties of undefined'')
            | Some stringified \<Rightarrow>
                if list_ex (\<lambda>pattern. str_includes (toLowerCase stringified) (toLowerCase pattern))
                     dangerousPatterns
                then Inl (DynamoValidationError ''Potential NoSQL injection detected'')
                else if (case v of JStr s \<Rightarrow> length s > MAX_VALUE_LENGTH | _ \<Rightarrow> False)
                then Inl (DynamoValidationError ''Value length exceeds maximum of 400000'')
                else Inr ()))"

text \<open>The same checks, with the length bound compared on integers, for evaluation.\<close>

lemma validateScalar_code [code]:
  "validateScalar rt v =
     (if v = JUndefined \<or> v = JNull
      then Inl (DynamoValidationError ''Value cannot be null or undefined'')
      else (case stringify rt v of
              None \<Rightarrow> Inl (TypeError ''Cannot read properties of undefined'')
            | Some stringified \<Rightarrow>
                if list_ex (\<lambda>pattern. str_includes (toLowerCase stringified) (toLowerCase pattern))
                     dangerousPatterns
                then Inl (DynamoValidationError ''Potential NoSQL injection detected'')
                else if (case v of JStr s \<Rightarrow> int (length s) > 400000 | _ \<Rightarrow> False)
                then Inl (DynamoValidationError ''Value length exceeds maximum of 400000'')
                else Inr ()))"
  by (cases v) (simp_all add: validateScalar_def MAX_VALUE_LENGTH_def)

fun validateValue :: "runtime \<Rightarrow> jsval \<Rightarrow> unit result"
  and validateValues :: "runtime \<Rightarrow> jsval list \<Rightarrow> unit result"
  and validateObjectValues :: "runtime \<Rightarrow> (string \<times> jsval) list \<Rightarrow> unit result"
where
  "validateValue rt (JArr xs) =
     (case validateScalar rt (JArr xs) of
        Inl e \<Rightarrow> Inl e
      | Inr _ \<Rightarrow>
          if xs = [] then Inl (DynamoValidationError ''Empty arrays not supported'')
          else validateValues rt xs)"
| "validateValue rt (JObj es) =
     (case validateScalar rt (JObj es) of
        Inl e \<Rightarrow> Inl e
      | Inr _ \<Rightarrow>
          if list_ex (\<lambda>p. p \<in> set dangerousPatterns) (map fst es @ map fst es)
          then Inl (DynamoValidationError ''Potential NoSQL injection detected'')
          else validateObjectValues rt es)"
| "validateValue rt v = validateScalar rt v"
| "validateValues rt [] = Inr ()"
| "validateValues rt (x # xs) =
     (case validateValue rt x of Inl e \<Rightarrow> Inl e | Inr _ \<Rightarrow> validateValues rt xs)"
| "validateObjectValues rt [] = Inr ()"
| "validateObjectValues rt ((k, v) # es) =
     (case validateValue rt v of Inl e \<Rightarrow> Inl e | Inr _ \<Rightarrow> validateObjectValues rt es)"

section \<open>The expression builder (DynamoDBExpressionBuilder.ts)\<close>

record filterQuery =
  field :: string
  operator :: string
  filterValue :: jsval

record expression =
  TableName :: "string option"
  KeyConditionExpression :: "string option"
  FilterExpression :: "string option"
  ExpressionAttributeNames :: "(string \<times> string) list option"
  ExpressionAttributeValues :: "(string \<times> jsval) list option"
  ScanIndexForward :: "bool option"

text \<open>The object literal \<^verbatim>\<open>{}\<close>.\<close>

definition emptyExpression :: expression where
  "emptyExpression =
     \<lparr> TableName = None, KeyConditionExpression = None, FilterExpression = None,
       ExpressionAttributeNames = None, ExpressionAttributeValues = None,
       ScanIndexForward = None \<rparr>"

text \<open>
  The table \<^verbatim>\<open>operatorMap\<close>. An operator is one of the strings of the filter type, or a
  string that names no member of \<^verbatim>\<open>Object.prototype\<close>: the lookup of such a name in the
  source would find the inherited member.
\<close>

definition operatorMap :: "(string \<times> string) list" where
  "operatorMap =
     [(''<'', ''<''), (''>'', ''>''), (''<='', ''<=''), (''>='', ''>=''), (''='', ''=''),
      (''!='', ''<>''), (''in'', ''IN''), (''not in'', ''NOT IN''),
      (''like'', ''contains''), (''not like'', ''NOT contains'')]"

text \<open>The template literals \<^verbatim>\<open>#key${index}_${idx}\<close>, \<^verbatim>\<open>:val${index}\<close>, \<^verbatim>\<open>:val${index}_${i}\<close>.\<close>

definition keyName :: "nat \<Rightarrow> nat \<Rightarrow> string" where
  "keyName index idx = ''#key'' @ natToString index @ ''_'' @ natToString idx"

definition valName :: "nat \<Rightarrow> string" where
  "valName index = '':val'' @ natToString index"

definition valNameAt :: "nat \<Rightarrow> nat \<Rightarrow> string" where
  "valNameAt index i = '':val'' @ natToString index @ ''_'' @ natToString i"

text \<open>
  \<^verbatim>\<open>expr.ExpressionAttributeNames![k] = v\<close> and \<^verbatim>\<open>expr.ExpressionAttributeValues![k] = v\<close>:
  the assignment raises when the map is missing.
\<close>

definition assignName :: "string \<Rightarrow> string \<Rightarrow> expression \<Rightarrow> expression result" where
  "assignName k v expr =
     (case ExpressionAttributeNames expr of
        None \<Rightarrow> Inl (TypeError ''Cannot set properties of undefined'')
      | Some names \<Rightarrow> Inr (expr\<lparr>ExpressionAttributeNames := Some (setProp k v names)\<rparr>))"

definition assignValue :: "string \<Rightarrow> jsval \<Rightarrow> expression \<Rightarrow> expression result" where
  "assignValue k v expr =
     (case ExpressionAttributeValues expr of
        None \<Rightarrow> Inl (TypeError ''Cannot set properties of undefined'')
      | Some vals \<Rightarrow> Inr (expr\<lparr>ExpressionAttributeValues := Some (setProp k v vals)\<rparr>))"

text \<open>\<^verbatim>\<open>pathParts.forEach((part, idx) => ...)\<close>, from position \<open>idx\<close> on.\<close>

fun assignPathParts :: "nat \<Rightarrow> nat \<Rightarrow> string list \<Rightarrow> expression \<Rightarrow> expression result" where
  "assignPathParts index idx [] expr = Inr expr"
| "assignPathParts index idx (part # parts) expr =
     (case assignName (keyName index idx) part expr of
        Inl e \<Rightarrow> Inl e
      | Inr expr' \<Rightarrow> assignPathParts index (Suc idx) parts expr')"

definition pathOf :: "nat \<Rightarrow> string list \<Rightarrow> string" where
  "pathOf index pathParts = joinWith ''.'' (map (keyName index) [0..<length pathParts])"

text \<open>\<^verbatim>\<open>:val${index}\<close> is bound to the encoded value.\<close>

definition bindValue :: "runtime \<Rightarrow> nat \<Rightarrow> jsval \<Rightarrow> expression \<Rightarrow> expression result" where
  "bindValue rt index v expr =
     (case toDynamoDBValue rt v of
        Inl e \<Rightarrow> Inl e
      | Inr w \<Rightarrow> assignValue (valName index) w expr)"

text \<open>\<^verbatim>\<open>value.map((v, i) => ...)\<close> of the \<^verbatim>\<open>in\<close> cases, from position \<open>i\<close> on.\<close>

fun inConditions ::
  "runtime \<Rightarrow> string \<Rightarrow> nat \<Rightarrow> nat \<Rightarrow> jsval list \<Rightarrow> expression \<Rightarrow> (expression \<times> string list) result"
where
  "inConditions rt path index i [] expr = Inr (expr, [])"
| "inConditions rt path index i (v # vs) expr =
     (case toDynamoDBValue rt v of
        Inl e \<Rightarrow> Inl e
      | Inr w \<Rightarrow>
          (case assignValue (valNameAt index i) w expr of
             Inl e \<Rightarrow> Inl e
           | Inr expr' \<Rightarrow>
               (case inConditions rt path index (Suc i) vs expr' of
                  Inl e \<Rightarrow> Inl e
                | Inr (expr'', conditions) \<Rightarrow>
                    Inr (expr'', (path @ '' = '' @ valNameAt index i) # conditions))))"

text \<open>\<^verbatim>\<open>if (!Array.isArray(value)) value = [value]\<close>.\<close>

definition coerceToArray :: "jsval \<Rightarrow> jsval list" where
  "coerceToArray v = (case v of JArr xs \<Rightarrow> xs | _ \<Rightarrow> [v])"

definition buildSubExpression ::
  "runtime \<Rightarrow> expression \<Rightarrow> string \<Rightarrow> string \<Rightarrow> jsval \<Rightarrow> nat \<Rightarrow> (expression \<times> string) result"
where
  "buildSubExpression rt expr fld oper v index =
     (let pathParts = splitOn CHR ''.'' fld in
      case assignPathParts index 0 pathParts expr of
        Inl e \<Rightarrow> Inl e
      | Inr expr1 \<Rightarrow>
          (let path = pathOf index pathParts in
           if oper = ''like'' then
             (case bindValue rt index v expr1 of
                Inl e \<Rightarrow> Inl e
              | Inr expr2 \<Rightarrow> Inr (expr2, ''contains('' @ path @ '', '' @ valName index @ '')''))
           else if oper = ''not like'' then
             (case bindValue rt index v expr1 of
                Inl e \<Rightarrow> Inl e
              | Inr expr2 \<Rightarrow> Inr (expr2, ''NOT contains('' @ path @ '', '' @ valName index @ '')''))
           else if oper = ''in'' \<or> oper = ''not in'' then
             (case inConditions rt path index 0 (coerceToArray v) expr1 of
                Inl e \<Rightarrow> Inl e
              | Inr (expr2, conditions) \<Rightarrow>
                  Inr (expr2,
                       if oper = ''in'' then ''('' @ joinWith '' OR '' conditions @ '')''
                       else ''NOT ('' @ joinWith '' OR '' conditions @ '')''))
           else
             (case bindValue rt index v expr1 of
                Inl e \<Rightarrow> Inl e
              | Inr expr2 \<Rightarrow>
                  (case map_of operatorMap oper of
                     None \<Rightarrow> Inl (DynamoValidationError (''Unsupported operator: '' @ oper))
                   | Some dynOp \<Rightarrow> Inr (expr2, path @ '' '' @ dynOp @ '' '' @ valName index)))))"

definition addPartitionKeyExpression ::
  "runtime \<Rightarrow> expression \<Rightarrow> filterQuery \<Rightarrow> expression result"
where
  "addPartitionKeyExpression rt expr pkFilter =
     (case assignName ''#pk'' (field pkFilter)
             (expr\<lparr>KeyConditionExpression := Some ''#pk = :pkVal''\<rparr>) of
        Inl e \<Rightarrow> Inl e
      | Inr expr1 \<Rightarrow>
          (case toDynamoDBValue rt (filterValue pkFilter) of
             Inl e \<Rightarrow> Inl e
           | Inr w \<Rightarrow> assignValue '':pkVal'' w expr1))"

text \<open>\<^verbatim>\<open>filters.map((filter, i) => this.buildSubExpression(...))\<close>, from position \<open>i\<close> on.\<close>

fun buildSubExpressions ::
  "runtime \<Rightarrow> nat \<Rightarrow> filterQuery list \<Rightarrow> expression \<Rightarrow> (expression \<times> string list) result"
where
  "buildSubExpressions rt i [] expr = Inr (expr, [])"
| "buildSubExpressions rt i (f # fs) expr =
     (case buildSubExpression rt expr (field f) (operator f) (filterValue f) i of
        Inl e \<Rightarrow> Inl e
      | Inr (expr1, sub) \<Rightarrow>
          (case buildSubExpressions rt (Suc i) fs expr1 of
             Inl e \<Rightarrow> Inl e
           | Inr (expr2, subs) \<Rightarrow> Inr (expr2, sub # subs)))"

definition addFilterExpressions ::
  "runtime \<Rightarrow> expression \<Rightarrow> filterQuery list \<Rightarrow> expression result"
where
  "addFilterExpressions rt expr filters =
     (case buildSubExpressions rt 0 filters expr of
        Inl e \<Rightarrow> Inl e
      | Inr (expr1, subExpressions) \<Rightarrow>
          Inr (expr1\<lparr>FilterExpression := Some (joinWith '' AND '' subExpressions)\<rparr>))"

text \<open>
  Modelled from the spec: \<open>extractPartitionKeyFilter\<close> belongs to the base class
  \<^verbatim>\<open>BaseExpressionBuilder\<close> of the package \<^verbatim>\<open>@denis_bruns/database-core\<close>. The first
  predicate whose field is the partition-key name and whose operator is equality becomes
  the key-condition source; all others, in order, are the residual predicates.
\<close>

fun extractPartitionKeyFilter ::
  "string \<Rightarrow> filterQuery list \<Rightarrow> filterQuery option \<times> filterQuery list"
where
  "extractPartitionKeyFilter pkName [] = (None, [])"
| "extractPartitionKeyFilter pkName (f # fs) =
     (if field f = pkName \<and> operator f = ''='' then (Some f, fs)
      else (case extractPartitionKeyFilter pkName fs of
              (pkFilter, remainingFilters) \<Rightarrow> (pkFilter, f # remainingFilters)))"

definition validateFilter :: "runtime \<Rightarrow> filterQuery \<Rightarrow> unit result" where
  "validateFilter rt f =
     (case validateFieldName (field f) of
        Inl e \<Rightarrow> Inl e
      | Inr _ \<Rightarrow> validateValue rt (filterValue f))"

definition buildFilterExpression ::
  "runtime \<Rightarrow> string \<Rightarrow> filterQuery list \<Rightarrow> expression result"
where
  "buildFilterExpression rt pkName filters =
     (if filters = [] then Inr emptyExpression
      else (case forEach (validateFilter rt) filters of
              Inl e \<Rightarrow> Inl e
            | Inr _ \<Rightarrow>
                (let expr = emptyExpression\<lparr>ExpressionAttributeNames := Some [],
                                            ExpressionAttributeValues := Some []\<rparr>;
                     (pkFilter, remainingFilters) = extractPartitionKeyFilter pkName filters
                 in case (case pkFilter of
                            None \<Rightarrow> Inr expr
                          | Some pk \<Rightarrow> addPartitionKeyExpression rt expr pk) of
                      Inl e \<Rightarrow> Inl e
                    | Inr expr1 \<Rightarrow>
                        if remainingFilters \<noteq> [] then addFilterExpressions rt expr1 remainingFilters
                        else Inr expr1)))"

section \<open>Pagination validation (DynamoValidator.ts)\<close>




section \<open>The service (DynamoDBService.ts)\<close>

text \<open>\<^verbatim>\<open>v?.k\<close>.\<close>

definition optProp :: "jsval \<Rightarrow> string \<Rightarrow> jsval" where
  "optProp v k = (if v = JNull \<or> v = JUndefined then JUndefined else getProp v k)"








subsection \<open>Numbers in the result processor\<close>

text \<open>\<open>a >= b\<close> on numbers.\<close>

fun geNum :: "jsnum \<Rightarrow> jsnum \<Rightarrow> bool" where
  "geNum NaN b = False"
| "geNum a NaN = False"
| "geNum PInf b = True"
| "geNum a NInf = True"
| "geNum NInf b = False"
| "geNum a PInf = False"
| "geNum (Fin r) (Fin s) = (s \<le> r)"

text \<open>
  \<^verbatim>\<open>xs.slice(start, end)\<close>: both bounds are truncated to integers, a negative bound counts
  from the end, and both are clamped to the length.
\<close>

definition relativeIndex :: "nat \<Rightarrow> jsnum \<Rightarrow> nat" where
  "relativeIndex len n =
     (case n of
        NaN \<Rightarrow> 0
      | PInf \<Rightarrow> len
      | NInf \<Rightarrow> 0
      | Fin r \<Rightarrow>
          (let k = (if 0 \<le> r then \<lfloor>r\<rfloor> else \<lceil>r\<rceil>)
           in if k < 0 then nat (max (int len + k) 0) else min (nat k) len))"

definition slice :: "'a list \<Rightarrow> jsnum \<Rightarrow> jsnum \<Rightarrow> 'a list" where
  "slice xs start end =
     (let k = relativeIndex (length xs) start; final = relativeIndex (length xs) end
      in take (final - k) (drop k xs))"

subsection \<open>Sorting\<close>

text \<open>
  \<^verbatim>\<open>Array.prototype.sort(comparefn)\<close>. The language requires the sort to be stable, reads a
  \<open>NaN\<close> from the comparator as zero, and leaves the order to the implementation when the
  comparator is not consistent. The model is insertion sort: an element is put before
  the first element of the sorted rest that it does not come after. It agrees with every
  conforming sort whenever the comparator is consistent on the elements, and it raises
  when a call of the comparator raises. The elements are raw items, none of them
  \<^verbatim>\<open>undefined\<close> (the built-in would move those to the end without comparing them).
\<close>

definition comesAfter :: "jsnum \<Rightarrow> bool" where
  "comesAfter v = (case v of PInf \<Rightarrow> True | Fin r \<Rightarrow> 0 < r | _ \<Rightarrow> False)"

fun insertSorted :: "('a \<Rightarrow> 'a \<Rightarrow> jsnum result) \<Rightarrow> 'a \<Rightarrow> 'a list \<Rightarrow> 'a list result" where
  "insertSorted comparefn x [] = Inr [x]"
| "insertSorted comparefn x (y # ys) =
     (case comparefn x y of
        Inl e \<Rightarrow> Inl e
      | Inr v \<Rightarrow>
          if comesAfter v
          then (case insertSorted comparefn x ys of Inl e \<Rightarrow> Inl e | Inr zs \<Rightarrow> Inr (y # zs))
          else Inr (x # y # ys))"

fun sortWith :: "('a \<Rightarrow> 'a \<Rightarrow> jsnum result) \<Rightarrow> 'a list \<Rightarrow> 'a list result" where
  "sortWith comparefn [] = Inr []"
| "sortWith comparefn (x # xs) =
     (case sortWith comparefn xs of
        Inl e \<Rightarrow> Inl e
      | Inr ys \<Rightarrow> insertSorted comparefn x ys)"

subsection \<open>The result processor\<close>

text \<open>
  \<^verbatim>\<open>item[sortKey]\<close>. Reading a property of \<^verbatim>\<open>null\<close> or \<^verbatim>\<open>undefined\<close> raises. The key is
  converted to a string, which may raise. On a raw item, a plain object, the read finds
  the own property of that name, otherwise the member of that name that the item inherits
  from \<^verbatim>\<open>Object.prototype\<close>, otherwise \<^verbatim>\<open>undefined\<close>. What it finds on a value of another
  kind is left to the runtime.
\<close>

definition member :: "runtime \<Rightarrow> jsval \<Rightarrow> jsval \<Rightarrow> property result" where
  "member rt item sortKey =
     (if item = JNull \<or> item = JUndefined
      then Inl (TypeError ''Cannot read properties of null or undefined'')
      else (case toStr rt sortKey of
              Inl e \<Rightarrow> Inl e
            | Inr k \<Rightarrow>
                (case item of
                   JObj es \<Rightarrow>
                     (case map_of es k of
                        Some v \<Rightarrow> Inr (Own v)
                      | None \<Rightarrow>
                          if k \<in> set (prototypeMembers rt) then Inr (Inherited k)
                          else Inr (Own JUndefined))
                 | _ \<Rightarrow> Inr (memberOfOther rt item k))))"

text \<open>The truth value of what a property read found.\<close>

fun found :: "property \<Rightarrow> bool" where
  "found (Own v) = truthy v"
| "found (Inherited k) = True"

text \<open>
  The ordering key of an item: \<^verbatim>\<open>a[sortKey] ? fromDynamoDBValue(a[sortKey]) : ""\<close>. The
  decoder is a parameter of the result processor, so that a property can say which calls
  of it are made; \<open>processResults\<close> below passes the decoders of the codec.
\<close>

definition sortValue :: "runtime \<Rightarrow> (property \<Rightarrow> jsval result) \<Rightarrow> jsval \<Rightarrow> jsval \<Rightarrow> jsval result" where
  "sortValue rt decodeValue sortKey a =
     (case member rt a sortKey of
        Inl e \<Rightarrow> Inl e
      | Inr attr \<Rightarrow> if found attr then decodeValue attr else Inr (JStr []))"

text \<open>
  The comparison of two ordering keys. Two strings and two numbers are compared as they
  are; any other pair is compared as \<^verbatim>\<open>String(aVal)\<close> and \<^verbatim>\<open>String(bVal)\<close>, and either
  conversion may raise.
\<close>

definition compareValues :: "runtime \<Rightarrow> bool \<Rightarrow> jsval \<Rightarrow> jsval \<Rightarrow> jsnum result" where
  "compareValues rt scanForward aVal bVal =
     (case (aVal, bVal) of
        (JStr s, JStr t) \<Rightarrow>
          Inr (Fin (of_int (if scanForward then localeCompare rt s t else localeCompare rt t s)))
      | (JNum m, JNum n) \<Rightarrow> Inr (if scanForward then numSub rt m n else numSub rt n m)
      | _ \<Rightarrow>
          (case toStr rt aVal of
             Inl e \<Rightarrow> Inl e
           | Inr s \<Rightarrow>
               (case toStr rt bVal of
                  Inl e \<Rightarrow> Inl e
                | Inr t \<Rightarrow>
                    Inr (Fin (of_int (if scanForward then localeCompare rt s t
                                      else localeCompare rt t s))))))"

definition compareItems ::
  "runtime \<Rightarrow> (property \<Rightarrow> jsval result) \<Rightarrow> jsval \<Rightarrow> bool \<Rightarrow> jsval \<Rightarrow> jsval \<Rightarrow> jsnum result"
where
  "compareItems rt decodeValue sortKey scanForward a b =
     (case sortValue rt decodeValue sortKey a of
        Inl e \<Rightarrow> Inl e
      | Inr aVal \<Rightarrow>
          (case sortValue rt decodeValue sortKey b of
             Inl e \<Rightarrow> Inl e
           | Inr bVal \<Rightarrow> compareValues rt scanForward aVal bVal))"

text \<open>
  The loop over \<^verbatim>\<open>items.slice(0, 5)\<close> decodes \<^verbatim>\<open>item[sortKey] || {S: ""}\<close> and drops the
  result.
\<close>

definition inspectItem :: "runtime \<Rightarrow> (property \<Rightarrow> jsval result) \<Rightarrow> jsval \<Rightarrow> jsval \<Rightarrow> unit result" where
  "inspectItem rt decodeValue sortKey item =
     (case member rt item sortKey of
        Inl e \<Rightarrow> Inl e
      | Inr attr \<Rightarrow>
          (case decodeValue (if found attr then attr else Own (JObj [(''S'', JStr [])])) of
             Inl e \<Rightarrow> Inl e
           | Inr _ \<Rightarrow> Inr ()))"

text \<open>The value of \<^verbatim>\<open>results\<close> before the slice.\<close>

definition sortedResults ::
  "runtime \<Rightarrow> (property \<Rightarrow> jsval result) \<Rightarrow> jsval list \<Rightarrow> jsval \<Rightarrow> jsval list result"
where
  "sortedResults rt decodeValue items pagination =
     (if truthy (optProp pagination ''sortBy'') then
        (let sortKey = optProp pagination ''sortBy'';
             scanForward = (optProp pagination ''sortDirection'' \<noteq> JStr ''desc'')
         in case forEach (inspectItem rt decodeValue sortKey) (slice items (Fin 0) (Fin 5)) of
              Inl e \<Rightarrow> Inl e
            | Inr _ \<Rightarrow> sortWith (compareItems rt decodeValue sortKey scanForward) items)
      else Inr items)"

definition processResultsWith ::
  "runtime \<Rightarrow> (property \<Rightarrow> jsval result) \<Rightarrow> (jsval \<Rightarrow> jsval result) \<Rightarrow>
   jsval list \<Rightarrow> jsnum \<Rightarrow> jsnum \<Rightarrow> jsval \<Rightarrow> jsval list result"
where
  "processResultsWith rt decodeValue decodeItem items limit offset pagination =
     (if limit = Fin 0 then Inr []
      else if geNum offset (Fin (of_nat (length items))) then Inr []
      else (case sortedResults rt decodeValue items pagination of
              Inl e \<Rightarrow> Inl e
            | Inr results \<Rightarrow>
                (let endIndex = numAdd rt offset limit;
                     sliced = slice results offset endIndex
                 in mapResult decodeItem sliced)))"

text \<open>
  \<^verbatim>\<open>fromDynamoDBValue\<close> applied to what \<^verbatim>\<open>item[sortKey]\<close> found. An inherited member is a
  method of \<^verbatim>\<open>Object.prototype\<close> or that prototype itself; none of them has a property
  named \<^verbatim>\<open>S\<close>, \<^verbatim>\<open>N\<close>, \<^verbatim>\<open>BOOL\<close>, \<^verbatim>\<open>SS\<close>, \<^verbatim>\<open>NS\<close>, \<^verbatim>\<open>M\<close> or \<^verbatim>\<open>L\<close>, so the decoder
  fails its seven tests and returns \<^verbatim>\<open>null\<close>.
\<close>

fun decodeFound :: "runtime \<Rightarrow> property \<Rightarrow> jsval result" where
  "decodeFound rt (Own v) = fromDynamoDBValue rt v"
| "decodeFound rt (Inherited k) = Inr JNull"

definition processResults ::
  "runtime \<Rightarrow> jsval list \<Rightarrow> jsnum \<Rightarrow> jsnum \<Rightarrow> jsval \<Rightarrow> jsval list result"
where
  "processResults rt items limit offset pagination =
     processResultsWith rt (decodeFound rt) (mapDynamoDBItemToType rt)
       items limit offset pagination"

section \<open>A runtime to evaluate with\<close>

text \<open>
  An instance of the built-ins, used to evaluate the model at concrete inputs. It agrees
  with the JavaScript built-ins on integers written in plain decimal notation, on the
  comparison of lower-case ASCII words and on the property reads of plain objects, which
  is all the concrete inputs of this theory use.
\<close>

definition digitValue :: "char \<Rightarrow> nat option" where
  "digitValue c = map_of (zip digitChars [0, 1, 2, 3, 4, 5, 6, 7, 8, 9]) c"

fun parseDigits :: "string \<Rightarrow> nat \<Rightarrow> nat option" where
  "parseDigits [] acc = Some acc"
| "parseDigits (c # cs) acc =
     (case digitValue c of None \<Rightarrow> None | Some d \<Rightarrow> parseDigits cs (10 * acc + d))"

definition parseDecimal :: "string \<Rightarrow> jsnum" where
  "parseDecimal s =
     (case s of
        [] \<Rightarrow> NaN
      | c # cs \<Rightarrow>
          (if c = CHR ''-'' \<and> cs \<noteq> []
           then (case parseDigits cs 0 of None \<Rightarrow> NaN | Some n \<Rightarrow> Fin (- of_nat n))
           else (case parseDigits (c # cs) 0 of None \<Rightarrow> NaN | Some n \<Rightarrow> Fin (of_nat n))))"

definition printDecimal :: "jsnum \<Rightarrow> string" where
  "printDecimal n =
     (case n of
        NaN \<Rightarrow> ''NaN''
      | PInf \<Rightarrow> ''Infinity''
      | NInf \<Rightarrow> ''-Infinity''
      | Fin r \<Rightarrow>
          (if r \<noteq> of_int \<lfloor>r\<rfloor> then ''NaN''
           else if r < 0 then CHR ''-'' # natToString (nat (- \<lfloor>r\<rfloor>))
           else natToString (nat \<lfloor>r\<rfloor>)))"

fun compareCodeUnits :: "string \<Rightarrow> string \<Rightarrow> int" where
  "compareCodeUnits [] [] = 0"
| "compareCodeUnits [] (b # bs) = - 1"
| "compareCodeUnits (a # as) [] = 1"
| "compareCodeUnits (a # as) (b # bs) =
     (if (of_char a :: nat) < of_char b then - 1
      else if (of_char b :: nat) < of_char a then 1
      else compareCodeUnits as bs)"

text \<open>The sum and the difference, exact: no rounding occurs on integers of moderate size.\<close>

fun exactNeg :: "jsnum \<Rightarrow> jsnum" where
  "exactNeg NaN = NaN"
| "exactNeg PInf = NInf"
| "exactNeg NInf = PInf"
| "exactNeg (Fin r) = Fin (- r)"

fun exactAdd :: "jsnum \<Rightarrow> jsnum \<Rightarrow> jsnum" where
  "exactAdd NaN b = NaN"
| "exactAdd a NaN = NaN"
| "exactAdd PInf NInf = NaN"
| "exactAdd NInf PInf = NaN"
| "exactAdd PInf b = PInf"
| "exactAdd a PInf = PInf"
| "exactAdd NInf b = NInf"
| "exactAdd a NInf = NInf"
| "exactAdd (Fin r) (Fin s) = Fin (r + s)"

definition exactSub :: "jsnum \<Rightarrow> jsnum \<Rightarrow> jsnum" where
  "exactSub a b = exactAdd a (exactNeg b)"

text \<open>The members of \<^verbatim>\<open>Object.prototype\<close> that the language defines.\<close>

definition objectPrototypeMembers :: "string list" where
  "objectPrototypeMembers =
     [''constructor'', ''hasOwnProperty'', ''isPrototypeOf'', ''propertyIsEnumerable'',
      ''toLocaleString'', ''toString'', ''valueOf'', ''__defineGetter__'', ''__defineSetter__'',
      ''__lookupGetter__'', ''__lookupSetter__'', ''__proto__'']"

definition decimalRuntime :: runtime where
  "decimalRuntime =
     \<lparr> numToString = printDecimal,
       parseFloatStr = parseDecimal,
       stringToNumber = (\<lambda>s. if s = [] then Fin 0 else parseDecimal s),
       localeCompare = compareCodeUnits,
       numAdd = exactAdd,
       numSub = exactSub,
       prototypeMembers = objectPrototypeMembers,
       memberOfOther = (\<lambda>v k. if k \<in> set objectPrototypeMembers then Inherited k
                               else Own JUndefined) \<rparr>"

section \<open>Facts about the string functions\<close>

lemma str_includes_iff: "str_includes s p \<longleftrightarrow> (\<exists>a b. s = a @ p @ b)"
proof (induction s)
  case Nil
  then show ?case by auto
next
  case (Cons c cs)
  show ?case
  proof
    assume "str_includes (c # cs) p"
    then consider "prefix p (c # cs)" | "str_includes cs p" by auto
    then show "\<exists>a b. c # cs = a @ p @ b"
    proof cases
      case 1
      then obtain b where "c # cs = p @ b" by (auto simp: prefix_def)
      then have "c # cs = [] @ p @ b" by simp
      then show ?thesis by blast
    next
      case 2
      with Cons.IH obtain a b where "cs = a @ p @ b" by blast
      then have "c # cs = (c # a) @ p @ b" by simp
      then show ?thesis by blast
    qed
  next
    assume "\<exists>a b. c # cs = a @ p @ b"
    then obtain a b where ab: "c # cs = a @ p @ b" by blast
    show "str_includes (c # cs) p"
    proof (cases a)
      case Nil
      with ab have "prefix p (c # cs)" by (simp add: prefix_def)
      then show ?thesis by simp
    next
      case (Cons a0 as)
      with ab have "cs = as @ p @ b" by simp
      with Cons.IH have "str_includes cs p" by blast
      then show ?thesis by simp
    qed
  qed
qed

lemma splitOn_not_Nil: "splitOn d s \<noteq> []"
  by (induction s) (auto split: list.splits)

lemma splitOn_no_sep: "d \<notin> set s \<Longrightarrow> splitOn d s = [s]"
  by (induction s) auto

lemma splitOn_append_sep:
  "d \<notin> set s \<Longrightarrow> splitOn d (s @ d # t) = s # splitOn d t"
  by (induction s) auto

lemma splitOn_joinWith:
  "segs \<noteq> [] \<Longrightarrow> \<forall>s \<in> set segs. d \<notin> set s \<Longrightarrow> splitOn d (joinWith [d] segs) = segs"
proof (induction segs)
  case Nil
  then show ?case by simp
next
  case (Cons x xs)
  show ?case
  proof (cases xs)
    case Nil
    with Cons.prems show ?thesis by (simp add: splitOn_no_sep)
  next
    case (Cons y ys)
    with Cons.IH Cons.prems have "splitOn d (joinWith [d] xs) = xs" by simp
    with Cons Cons.prems show ?thesis by (simp add: splitOn_append_sep)
  qed
qed

lemma dot_not_letter: "CHR ''.'' \<notin> set (lowerLetters @ upperLetters)"
  by (simp add: lowerLetters_def upperLetters_def)

lemma dot_not_fieldChar: "CHR ''.'' \<notin> set (lowerLetters @ upperLetters @ digitChars @ ''_'')"
  by (simp add: lowerLetters_def upperLetters_def digitChars_def)

lemma VALID_FIELD_REGEX_no_dot:
  assumes "VALID_FIELD_REGEX s"
  shows "CHR ''.'' \<notin> set s"
proof (cases s)
  case Nil
  then show ?thesis by simp
next
  case (Cons c cs)
  with assms have c: "c \<in> set (lowerLetters @ upperLetters)"
    and cs: "\<forall>d \<in> set cs. d \<in> set (lowerLetters @ upperLetters @ digitChars @ ''_'')"
    by (simp_all add: VALID_FIELD_REGEX_def list_all_iff del: set_append)
  from c dot_not_letter have "c \<noteq> CHR ''.''" by metis
  moreover from cs dot_not_fieldChar have "CHR ''.'' \<notin> set cs" by metis
  ultimately show ?thesis using Cons by simp
qed

lemma VALID_FIELD_REGEX_not_Nil: "VALID_FIELD_REGEX s \<Longrightarrow> s \<noteq> []"
  by (auto simp: VALID_FIELD_REGEX_def)

lemma forEach_all_ok: "\<forall>x \<in> set xs. f x = Inr () \<Longrightarrow> forEach f xs = Inr ()"
  by (induction xs) auto

lemma joinWith_not_Nil: "segs \<noteq> [] \<Longrightarrow> \<forall>s \<in> set segs. s \<noteq> [] \<Longrightarrow> joinWith sep segs \<noteq> []"
  by (induction sep segs rule: joinWith.induct) auto

section \<open>Field names: the denylist and the accepted paths\<close>

definition containsUnsafe :: "string \<Rightarrow> bool" where
  "containsUnsafe fld =
     (\<exists>pattern \<in> set UNSAFE_PATTERNS. \<exists>a b. toLowerCase fld = a @ toLowerCase pattern @ b)"

definition dottedPath :: "string list \<Rightarrow> bool" where
  "dottedPath segs =
     (segs \<noteq> [] \<and> length segs \<le> 20 \<and>
      (\<forall>s \<in> set segs. length s \<le> 255 \<and> VALID_FIELD_REGEX s))"

lemma containsUnsafe_code:
  "containsUnsafe fld =
     list_ex (\<lambda>pattern. str_includes (toLowerCase fld) (toLowerCase pattern)) UNSAFE_PATTERNS"
  by (simp add: containsUnsafe_def list_ex_iff str_includes_iff)

text \<open>
  C5, as amended. A field name that contains a denylisted token, case-insensitively, is
  rejected; a dotted path of at most 20 segments, each of at most 255 characters and
  matching the segment pattern, is accepted when it contains no denylisted token.
\<close>

theorem validateFieldName_denylist_and_paths:
  "(containsUnsafe fld \<longrightarrow> (\<exists>msg. validateFieldName fld = Inl (DynamoValidationError msg)))
   \<and> (dottedPath segs \<and> \<not> containsUnsafe (joinWith ''.'' segs)
        \<longrightarrow> validateFieldName (joinWith ''.'' segs) = Inr ())"
proof (intro conjI impI)
  assume "containsUnsafe fld"
  then show "\<exists>msg. validateFieldName fld = Inl (DynamoValidationError msg)"
    by (simp add: validateFieldName_def containsUnsafe_code)
next
  assume h: "dottedPath segs \<and> \<not> containsUnsafe (joinWith ''.'' segs)"
  then have segs: "segs \<noteq> []" "length segs \<le> 20"
    and each: "\<forall>s \<in> set segs. length s \<le> 255 \<and> VALID_FIELD_REGEX s"
    by (auto simp: dottedPath_def)
  from each have nodot: "\<forall>s \<in> set segs. CHR ''.'' \<notin> set s"
    using VALID_FIELD_REGEX_no_dot by blast
  have split: "splitOn CHR ''.'' (joinWith ''.'' segs) = segs"
    using splitOn_joinWith [OF segs(1) nodot] .
  from each have "\<forall>s \<in> set segs. s \<noteq> []"
    using VALID_FIELD_REGEX_not_Nil by blast
  then have nonempty: "joinWith ''.'' segs \<noteq> []"
    using joinWith_not_Nil segs(1) by blast
  have parts: "forEach validatePart segs = Inr ()"
  proof (rule forEach_all_ok, rule ballI)
    fix s assume "s \<in> set segs"
    with each have "length s \<le> 255" "VALID_FIELD_REGEX s" by auto
    then show "validatePart s = Inr ()"
      by (simp add: validatePart_def MAX_FIELD_LENGTH_def)
  qed
  from h have "\<not> containsUnsafe (joinWith ''.'' segs)" by simp
  then show "validateFieldName (joinWith ''.'' segs) = Inr ()"
    using nonempty split segs(2) parts
    by (simp add: validateFieldName_def containsUnsafe_code MAX_FIELD_DEPTH_def)
qed


declare containsUnsafe_code [code]

theorem validateFieldName_denylist_and_paths_witness:
  "containsUnsafe ''myDropZone'' \<and>
   (\<exists>msg. validateFieldName ''myDropZone'' = Inl (DynamoValidationError msg)) \<and>
   dottedPath [''user'', ''name''] \<and> \<not> containsUnsafe (joinWith ''.'' [''user'', ''name'']) \<and>
   validateFieldName (joinWith ''.'' [''user'', ''name'']) = Inr ()"
proof -
  have a: "containsUnsafe ''myDropZone''" by code_simp
  have b: "dottedPath [''user'', ''name'']" by code_simp
  have c: "\<not> containsUnsafe (joinWith ''.'' [''user'', ''name''])" by code_simp
  show ?thesis
    using a b c validateFieldName_denylist_and_paths [of "''myDropZone''" "[''user'', ''name'']"]
    by blast
qed

text \<open>
  C5 as stated fails: \<^verbatim>\<open>updatedAt\<close> is a one-segment path of letters, and it is rejected
  because it contains \<^verbatim>\<open>update\<close>.
\<close>

theorem validateFieldName_paths_counterexample:
  "dottedPath [''updatedAt''] \<and>
   validateFieldName (joinWith ''.'' [''updatedAt'']) =
     Inl (DynamoValidationError ''Field name contains unsafe pattern: updatedAt'')"
  by code_simp

section \<open>Decoding: precedence of the tags\<close>

definition TAG_ORDER :: "string list" where
  "TAG_ORDER = [''S'', ''N'', ''BOOL'', ''SS'', ''NS'', ''M'', ''L'']"

text \<open>
  What the component under one tag decodes to, in the words of the specification: a
  string, a boolean and a string set are the component itself; a number is parsed from
  the component; the elements of a number set are parsed in their order; a mapping is
  decoded as an item is; the elements of a list are decoded in their order.
\<close>

definition decodeComponent :: "runtime \<Rightarrow> string \<Rightarrow> jsval \<Rightarrow> jsval result" where
  "decodeComponent rt t x =
     (if t = ''S'' \<or> t = ''BOOL'' \<or> t = ''SS'' then Inr x
      else if t = ''N'' then
        (case parseFloat rt x of Inl e \<Rightarrow> Inl e | Inr n \<Rightarrow> Inr (JNum n))
      else if t = ''NS'' then
        (case x of
           JArr ns \<Rightarrow> (case mapResult (parseFloat rt) ns of
                         Inl e \<Rightarrow> Inl e
                       | Inr ms \<Rightarrow> Inr (JArr (map JNum ms)))
         | JNull \<Rightarrow> Inl (TypeError ''Cannot read properties of null or undefined'')
         | _ \<Rightarrow> Inl (TypeError ''val.NS.map is not a function''))
      else if t = ''M'' then mapDynamoDBItemToType rt x
      else if t = ''L'' then
        (case x of
           JArr vs \<Rightarrow> (case fromDynamoDBValues rt vs of
                         Inl e \<Rightarrow> Inl e
                       | Inr ds \<Rightarrow> Inr (JArr ds))
         | JNull \<Rightarrow> Inl (TypeError ''Cannot read properties of null or undefined'')
         | _ \<Rightarrow> Inl (TypeError ''val.L.map is not a function''))
      else Inr JNull)"

lemma find_TAG_ORDER:
  assumes "find d TAG_ORDER = Some t"
  shows "(t = ''S'' \<and> d ''S'')
       \<or> (t = ''N'' \<and> \<not> d ''S'' \<and> d ''N'')
       \<or> (t = ''BOOL'' \<and> \<not> d ''S'' \<and> \<not> d ''N'' \<and> d ''BOOL'')
       \<or> (t = ''SS'' \<and> \<not> d ''S'' \<and> \<not> d ''N'' \<and> \<not> d ''BOOL'' \<and> d ''SS'')
       \<or> (t = ''NS'' \<and> \<not> d ''S'' \<and> \<not> d ''N'' \<and> \<not> d ''BOOL'' \<and> \<not> d ''SS'' \<and> d ''NS'')
       \<or> (t = ''M'' \<and> \<not> d ''S'' \<and> \<not> d ''N'' \<and> \<not> d ''BOOL'' \<and> \<not> d ''SS'' \<and> \<not> d ''NS'' \<and> d ''M'')
       \<or> (t = ''L'' \<and> \<not> d ''S'' \<and> \<not> d ''N'' \<and> \<not> d ''BOOL'' \<and> \<not> d ''SS'' \<and> \<not> d ''NS'' \<and> \<not> d ''M''
            \<and> d ''L'')"
  using assms unfolding TAG_ORDER_def find.simps
  by (cases "d ''S''"; cases "d ''N''"; cases "d ''BOOL''"; cases "d ''SS''"; cases "d ''NS''";
      cases "d ''M''"; cases "d ''L''"; simp)

text \<open>
  C10. A wire value with one or several defined tags decodes to what the component under
  the first of them, in the order S, N, BOOL, SS, NS, M, L, decodes to: the string, the
  parsed number, the boolean, the string set, the parsed number set, the decoded mapping or
  the decoded list. The result does not depend on any other tag of the value.
\<close>

theorem fromDynamoDBValue_first_tag:
  assumes "find (\<lambda>t. getProp (JObj es) t \<noteq> JUndefined) TAG_ORDER = Some t"
  shows "fromDynamoDBValue rt (JObj es) = decodeComponent rt t (getProp (JObj es) t)"
proof -
  note dec = fromDynamoDBValue.simps [of rt "JObj es"] decodeComponent_def
  from find_TAG_ORDER [OF assms] show ?thesis
    by (elim disjE conjE) (simp_all add: dec del: getProp.simps)
qed

definition stringAndNumber :: "(string \<times> jsval) list" where
  "stringAndNumber = [(''N'', JStr ''1''), (''S'', JStr ''a'')]"

definition listBooleanAndNumber :: "(string \<times> jsval) list" where
  "listBooleanAndNumber =
     [(''L'', JArr [JObj [(''S'', JStr ''x'')]]), (''BOOL'', JBool True), (''N'', JStr ''7'')]"

definition listAndMapping :: "(string \<times> jsval) list" where
  "listAndMapping =
     [(''L'', JArr [JObj [(''S'', JStr ''x'')]]),
      (''M'', JObj [(''k'', JObj [(''NS'', JArr [JStr ''2'', JStr ''3'']), (''L'', JNull)])])]"

theorem fromDynamoDBValue_first_tag_witness:
  "find (\<lambda>t. getProp (JObj stringAndNumber) t \<noteq> JUndefined) TAG_ORDER = Some ''S'' \<and>
   fromDynamoDBValue decimalRuntime (JObj stringAndNumber) = Inr (JStr ''a'') \<and>
   find (\<lambda>t. getProp (JObj listBooleanAndNumber) t \<noteq> JUndefined) TAG_ORDER = Some ''N'' \<and>
   fromDynamoDBValue decimalRuntime (JObj listBooleanAndNumber) = Inr (JNum (Fin 7)) \<and>
   find (\<lambda>t. getProp (JObj listAndMapping) t \<noteq> JUndefined) TAG_ORDER = Some ''M'' \<and>
   fromDynamoDBValue decimalRuntime (JObj listAndMapping)
     = Inr (JObj [(''k'', JArr [JNum (Fin 2), JNum (Fin 3)])])"
proof -
  have f1: "find (\<lambda>t. getProp (JObj stringAndNumber) t \<noteq> JUndefined) TAG_ORDER = Some ''S''"
    by code_simp
  have f2: "find (\<lambda>t. getProp (JObj listBooleanAndNumber) t \<noteq> JUndefined) TAG_ORDER = Some ''N''"
    by code_simp
  have f3: "find (\<lambda>t. getProp (JObj listAndMapping) t \<noteq> JUndefined) TAG_ORDER = Some ''M''"
    by code_simp
  have d1: "decodeComponent decimalRuntime ''S'' (getProp (JObj stringAndNumber) ''S'')
              = Inr (JStr ''a'')"
    by code_simp
  have d2: "decodeComponent decimalRuntime ''N'' (getProp (JObj listBooleanAndNumber) ''N'')
              = Inr (JNum (Fin 7))"
    by code_simp
  have d3: "decodeComponent decimalRuntime ''M'' (getProp (JObj listAndMapping) ''M'')
              = Inr (JObj [(''k'', JArr [JNum (Fin 2), JNum (Fin 3)])])"
    by code_simp
  from f1 f2 f3 d1 d2 d3
    fromDynamoDBValue_first_tag [OF f1, of decimalRuntime]
    fromDynamoDBValue_first_tag [OF f2, of decimalRuntime]
    fromDynamoDBValue_first_tag [OF f3, of decimalRuntime]
  show ?thesis by simp
qed

section \<open>Decoding: malformed data\<close>

definition objectLike :: "jsval \<Rightarrow> bool" where
  "objectLike v = (truthy v \<and> typeof v = ''object'')"

lemma mapDynamoDBEntries_skips:
  "mapDynamoDBEntries rt es r = mapDynamoDBEntries rt (filter (\<lambda>e. objectLike (snd e)) es) r"
proof (induction es arbitrary: r)
  case Nil
  then show ?case by simp
next
  case (Cons e es)
  obtain k v where e: "e = (k, v)" by (cases e)
  show ?case
  proof (cases "objectLike v")
    case True
    with e Cons show ?thesis by (auto simp: objectLike_def split: sum.splits)
  next
    case False
    with e Cons show ?thesis by (auto simp: objectLike_def)
  qed
qed

text \<open>
  The guarded paths: a value with none of the seven tags decodes to \<^verbatim>\<open>null\<close>; an input of
  \<open>mapDynamoDBItemToType\<close> that is not an object gives the empty mapping; the entries of
  an item whose value is not an object are skipped.
\<close>

lemma decoding_guards:
  "(\<forall>t \<in> set TAG_ORDER. getProp (JObj es) t = JUndefined)
     \<Longrightarrow> fromDynamoDBValue rt (JObj es) = Inr JNull"
  "\<not> objectLike item \<Longrightarrow> mapDynamoDBItemToType rt item = Inr (JObj [])"
  "mapDynamoDBItemToType rt (JObj raw) =
     mapDynamoDBItemToType rt (JObj (filter (\<lambda>e. objectLike (snd e)) raw))"
proof -
  show "(\<forall>t \<in> set TAG_ORDER. getProp (JObj es) t = JUndefined)
          \<Longrightarrow> fromDynamoDBValue rt (JObj es) = Inr JNull"
    by (simp add: TAG_ORDER_def fromDynamoDBValue.simps [of rt "JObj es"] del: getProp.simps)
  show "\<not> objectLike item \<Longrightarrow> mapDynamoDBItemToType rt item = Inr (JObj [])"
    by (auto simp: objectLike_def mapDynamoDBItemToType.simps [of rt item])
  show "mapDynamoDBItemToType rt (JObj raw) =
          mapDynamoDBItemToType rt (JObj (filter (\<lambda>e. objectLike (snd e)) raw))"
    using mapDynamoDBEntries_skips [of rt raw "[]"]
    by (simp add: mapDynamoDBItemToType.simps)
qed

definition nullInList :: jsval where
  "nullInList = JObj [(''L'', JArr [JNull])]"

text \<open>
  C9. \<open>mapDynamoDBItemToType\<close> guards every entry of an item: an entry whose value is
  \<^verbatim>\<open>null\<close> or not an object is skipped, and a wire value with no known tag decodes to
  \<^verbatim>\<open>null\<close>. The elements of a list component are decoded without that guard: on a list
  that holds \<^verbatim>\<open>null\<close> the decoder reads a property of \<^verbatim>\<open>null\<close> and raises, and the raise
  passes through \<open>mapDynamoDBItemToType\<close> and through the result processor.
\<close>

theorem decoding_raises_on_null_in_list:
  "mapDynamoDBItemToType decimalRuntime (JObj [(''a'', JNull), (''b'', JStr ''x'')]) = Inr (JObj []) \<and>
   fromDynamoDBValue decimalRuntime (JObj [(''UNKNOWN_TYPE'', JStr ''value'')]) = Inr JNull \<and>
   fromDynamoDBValue decimalRuntime nullInList
     = Inl (TypeError ''Cannot read properties of null or undefined'') \<and>
   mapDynamoDBItemToType decimalRuntime (JObj [(''a'', nullInList)])
     = Inl (TypeError ''Cannot read properties of null or undefined'') \<and>
   processResults decimalRuntime [JObj [(''a'', nullInList)]] (Fin 10) (Fin 0) (JObj [])
     = Inl (TypeError ''Cannot read properties of null or undefined'')"
  by code_simp

section \<open>The codec round trip\<close>

fun canonical :: "jsval \<Rightarrow> bool" where
  "canonical (JStr s) = True"
| "canonical (JNum n) = True"
| "canonical (JBool b) = True"
| "canonical (JArr xs) = (xs \<noteq> [] \<and> (\<forall>x \<in> set xs. canonical x))"
| "canonical (JObj es) = (distinct (map fst es) \<and> (\<forall>e \<in> set es. canonical (snd e)))"
| "canonical JNull = False"
| "canonical JUndefined = False"

fun numbersOf :: "jsval \<Rightarrow> jsnum list" where
  "numbersOf (JNum n) = [n]"
| "numbersOf (JArr xs) = concat (map numbersOf xs)"
| "numbersOf (JObj es) = concat (map (\<lambda>e. numbersOf (snd e)) es)"
| "numbersOf _ = []"

fun keysOf :: "jsval \<Rightarrow> string list" where
  "keysOf (JArr xs) = concat (map keysOf xs)"
| "keysOf (JObj es) = concat (map (\<lambda>e. fst e # keysOf (snd e)) es)"
| "keysOf _ = []"

definition roundTrips :: "runtime \<Rightarrow> jsval \<Rightarrow> bool" where
  "roundTrips rt v =
     (\<exists>w. toDynamoDBValue rt v = Inr w \<and> objectLike w \<and> fromDynamoDBValue rt w = Inr v)"

definition encoded :: "runtime \<Rightarrow> jsval \<Rightarrow> jsval" where
  "encoded rt v = projr (toDynamoDBValue rt v)"

lemma roundTrips_encoded:
  "roundTrips rt v \<Longrightarrow>
     toDynamoDBValue rt v = Inr (encoded rt v) \<and> objectLike (encoded rt v) \<and>
     fromDynamoDBValue rt (encoded rt v) = Inr v"
  by (auto simp: roundTrips_def encoded_def)

lemma update_fresh: "k \<notin> fst ` set es \<Longrightarrow> update k v es = es @ [(k, v)]"
  by (induction es) auto

lemma setProp_fresh:
  "k \<noteq> ''__proto__'' \<Longrightarrow> k \<notin> fst ` set es \<Longrightarrow> setProp k v es = es @ [(k, v)]"
  by (simp add: setProp_def update_fresh)

lemma toDynamoDBEntries_fresh:
  assumes "distinct (map fst es)" "fst ` set es \<inter> fst ` set acc = {}"
    "''__proto__'' \<notin> fst ` set es" "\<forall>e \<in> set es. roundTrips rt (snd e)"
  shows "toDynamoDBEntries rt es acc = Inr (acc @ map (\<lambda>e. (fst e, encoded rt (snd e))) es)"
  using assms
proof (induction es arbitrary: acc)
  case Nil
  then show ?case by simp
next
  case (Cons e es)
  obtain k v where e: "e = (k, v)" by (cases e)
  from Cons.prems e have enc: "toDynamoDBValue rt v = Inr (encoded rt v)"
    using roundTrips_encoded by auto
  from Cons.prems e have k: "k \<noteq> ''__proto__''" "k \<notin> fst ` set acc" by auto
  let ?acc = "acc @ [(k, encoded rt v)]"
  have "toDynamoDBEntries rt es ?acc = Inr (?acc @ map (\<lambda>e. (fst e, encoded rt (snd e))) es)"
  proof (rule Cons.IH)
    show "distinct (map fst es)" using Cons.prems by simp
    show "fst ` set es \<inter> fst ` set ?acc = {}" using Cons.prems e by auto
    show "''__proto__'' \<notin> fst ` set es" using Cons.prems by auto
    show "\<forall>e \<in> set es. roundTrips rt (snd e)" using Cons.prems by simp
  qed
  with e enc k show ?case by (simp add: setProp_fresh)
qed

lemma mapDynamoDBEntries_fresh:
  assumes "distinct (map fst es)" "fst ` set es \<inter> fst ` set r = {}"
    "''__proto__'' \<notin> fst ` set es" "\<forall>e \<in> set es. roundTrips rt (snd e)"
  shows "mapDynamoDBEntries rt (map (\<lambda>e. (fst e, encoded rt (snd e))) es) r = Inr (r @ es)"
  using assms
proof (induction es arbitrary: r)
  case Nil
  then show ?case by simp
next
  case (Cons e es)
  obtain k v where e: "e = (k, v)" by (cases e)
  from Cons.prems e have dec: "objectLike (encoded rt v)" "fromDynamoDBValue rt (encoded rt v) = Inr v"
    using roundTrips_encoded by auto
  from Cons.prems e have k: "k \<noteq> ''__proto__''" "k \<notin> fst ` set r" by auto
  let ?r = "r @ [(k, v)]"
  have "mapDynamoDBEntries rt (map (\<lambda>e. (fst e, encoded rt (snd e))) es) ?r = Inr (?r @ es)"
  proof (rule Cons.IH)
    show "distinct (map fst es)" using Cons.prems by simp
    show "fst ` set es \<inter> fst ` set ?r = {}" using Cons.prems e by auto
    show "''__proto__'' \<notin> fst ` set es" using Cons.prems by auto
    show "\<forall>e \<in> set es. roundTrips rt (snd e)" using Cons.prems by simp
  qed
  with e dec k show ?case by (simp add: setProp_fresh objectLike_def)
qed

lemma toDynamoDBValues_all:
  "\<forall>x \<in> set xs. roundTrips rt x \<Longrightarrow>
     toDynamoDBValues rt xs = Inr (map (encoded rt) xs) \<and>
     fromDynamoDBValues rt (map (encoded rt) xs) = Inr xs"
proof (induction xs)
  case Nil
  then show ?case by simp
next
  case (Cons x xs)
  then have "toDynamoDBValue rt x = Inr (encoded rt x)" "fromDynamoDBValue rt (encoded rt x) = Inr x"
    using roundTrips_encoded by auto
  with Cons show ?case by simp
qed

lemma typeof_string: "typeof x = ''string'' \<longleftrightarrow> (\<exists>s. x = JStr s)"
  by (cases x) auto

lemma typeof_number: "typeof x = ''number'' \<longleftrightarrow> (\<exists>n. x = JNum n)"
  by (cases x) auto

lemma parseFloat_JStr: "parseFloat rt (JStr s) = Inr (parseFloatStr rt s)"
  by (simp add: parseFloat_def)

lemma numberToString_JNum: "numberToString rt (JNum n) = numToString rt n"
  by (simp add: numberToString_def)

lemma decode_numbers:
  assumes "\<forall>x \<in> set xs. typeof x = ''number''"
    "\<forall>n \<in> set (concat (map numbersOf xs)). parseFloatStr rt (numToString rt n) = n"
  shows "\<exists>ms. mapResult (parseFloat rt) (map (\<lambda>n. JStr (numberToString rt n)) xs) = Inr ms \<and>
              map JNum ms = xs"
  using assms
proof (induction xs)
  case Nil
  then show ?case by simp
next
  case (Cons x xs)
  then obtain n where x: "x = JNum n" by (auto simp: typeof_number)
  from Cons obtain ms
    where "mapResult (parseFloat rt) (map (\<lambda>n. JStr (numberToString rt n)) xs) = Inr ms"
      "map JNum ms = xs"
    by auto
  with Cons.prems x show ?case by (simp add: parseFloat_JStr numberToString_JNum)
qed

lemma SS_decodes: "fromDynamoDBValue rt (JObj [(''SS'', JArr xs)]) = Inr (JArr xs)"
  by (simp add: fromDynamoDBValue.simps)

lemma NS_decodes:
  "fromDynamoDBValue rt (JObj [(''NS'', JArr ns)]) =
     (case mapResult (parseFloat rt) ns of Inl e \<Rightarrow> Inl e | Inr ms \<Rightarrow> Inr (JArr (map JNum ms)))"
  by (simp add: fromDynamoDBValue.simps)

lemma L_decodes:
  "fromDynamoDBValue rt (JObj [(''L'', JArr vs)]) =
     (case fromDynamoDBValues rt vs of Inl e \<Rightarrow> Inl e | Inr ds \<Rightarrow> Inr (JArr ds))"
  by (simp add: fromDynamoDBValue.simps)

lemma M_decodes:
  "fromDynamoDBValue rt (JObj [(''M'', JObj ms)]) =
     (case mapDynamoDBEntries rt ms [] of Inl e \<Rightarrow> Inl e | Inr r \<Rightarrow> Inr (JObj r))"
  by (simp add: fromDynamoDBValue.simps mapDynamoDBItemToType.simps)

lemma codec_roundTrips:
  "canonical v \<Longrightarrow> ''__proto__'' \<notin> set (keysOf v) \<Longrightarrow>
   \<forall>n \<in> set (numbersOf v). parseFloatStr rt (numToString rt n) = n \<Longrightarrow> roundTrips rt v"
proof (induction v rule: canonical.induct)
  case (1 s)
  show ?case by (simp add: roundTrips_def objectLike_def fromDynamoDBValue.simps)
next
  case (2 n)
  then show ?case
    by (simp add: roundTrips_def objectLike_def fromDynamoDBValue.simps parseFloat_def)
next
  case (3 b)
  show ?case by (simp add: roundTrips_def objectLike_def fromDynamoDBValue.simps)
next
  case (4 xs)
  then have ne: "xs \<noteq> []" by simp
  have each: "\<forall>x \<in> set xs. roundTrips rt x"
  proof
    fix x assume x: "x \<in> set xs"
    show "roundTrips rt x"
    proof (rule "4.IH" [OF x])
      show "canonical x" using "4.prems"(1) x by simp
      show "''__proto__'' \<notin> set (keysOf x)" using "4.prems"(2) x by auto
      show "\<forall>n \<in> set (numbersOf x). parseFloatStr rt (numToString rt n) = n"
        using "4.prems"(3) x by auto
    qed
  qed
  let ?same = "list_all (\<lambda>item. typeof item = typeof (hd xs)) xs"
  consider (SS) "?same" "typeof (hd xs) = ''string''"
    | (NS) "?same" "typeof (hd xs) = ''number''"
    | (L) "\<not> (?same \<and> typeof (hd xs) = ''string'')" "\<not> (?same \<and> typeof (hd xs) = ''number'')"
    by blast
  then show ?case
  proof cases
    case SS
    with ne show ?thesis by (simp add: roundTrips_def objectLike_def SS_decodes)
  next
    case NS
    then have "\<forall>x \<in> set xs. typeof x = ''number''" by (simp add: list_all_iff)
    moreover have "\<forall>n \<in> set (concat (map numbersOf xs)). parseFloatStr rt (numToString rt n) = n"
      using "4.prems"(3) by simp
    ultimately obtain ms
      where "mapResult (parseFloat rt) (map (\<lambda>n. JStr (numberToString rt n)) xs) = Inr ms"
        "map JNum ms = xs"
      using decode_numbers by blast
    with ne NS show ?thesis by (simp add: roundTrips_def objectLike_def NS_decodes del: map_map)
  next
    case L
    with ne toDynamoDBValues_all [OF each] show ?thesis
      by (auto simp: roundTrips_def objectLike_def L_decodes)
  qed
next
  case (5 es)
  have each: "\<forall>e \<in> set es. roundTrips rt (snd e)"
  proof
    fix e assume e: "e \<in> set es"
    show "roundTrips rt (snd e)"
    proof (rule "5.IH" [OF e])
      show "canonical (snd e)" using "5.prems"(1) e by simp
      show "''__proto__'' \<notin> set (keysOf (snd e))" using "5.prems"(2) e by auto
      show "\<forall>n \<in> set (numbersOf (snd e)). parseFloatStr rt (numToString rt n) = n"
        using "5.prems"(3) e by auto
    qed
  qed
  have d: "distinct (map fst es)" using "5.prems"(1) by simp
  have p: "''__proto__'' \<notin> fst ` set es" using "5.prems"(2) by auto
  have enc: "toDynamoDBEntries rt es [] = Inr (map (\<lambda>e. (fst e, encoded rt (snd e))) es)"
    using toDynamoDBEntries_fresh [OF d _ p each, of "[]"] by simp
  have dec: "mapDynamoDBEntries rt (map (\<lambda>e. (fst e, encoded rt (snd e))) es) [] = Inr es"
    using mapDynamoDBEntries_fresh [OF d _ p each, of "[]"] by simp
  show ?case using enc dec by (simp add: roundTrips_def objectLike_def M_decodes)
next
  case 6
  then show ?case by simp
next
  case 7
  then show ?case by simp
qed

text \<open>
  C3, as amended. For a canonical value in which no mapping has the key \<^verbatim>\<open>__proto__\<close>
  and whose numbers are read back by \<^verbatim>\<open>parseFloat\<close> from their printed text, encoding
  succeeds and decoding the result gives the value back.
\<close>

theorem codec_round_trip:
  assumes "canonical v"
    and "''__proto__'' \<notin> set (keysOf v)"
    and "\<forall>n \<in> set (numbersOf v). parseFloatStr rt (numToString rt n) = n"
  shows "\<exists>w. toDynamoDBValue rt v = Inr w \<and> fromDynamoDBValue rt w = Inr v"
  using codec_roundTrips [OF assms] by (auto simp: roundTrips_def)

definition sampleValue :: jsval where
  "sampleValue =
     JObj [(''name'', JStr ''Test''),
           (''count'', JNum (Fin 42)),
           (''active'', JBool True),
           (''tags'', JArr [JStr ''tag1'', JStr ''tag2'']),
           (''counts'', JArr [JNum (Fin 1), JNum (Fin 2), JNum (Fin 3)]),
           (''list'', JArr [JNum (Fin 1), JStr ''text'', JBool True]),
           (''metadata'', JObj [(''key'', JStr ''value'')])]"

theorem codec_round_trip_witness:
  "canonical sampleValue \<and> ''__proto__'' \<notin> set (keysOf sampleValue) \<and>
   list_all (\<lambda>n. parseFloatStr decimalRuntime (numToString decimalRuntime n) = n)
     (numbersOf sampleValue) \<and>
   (\<exists>w. toDynamoDBValue decimalRuntime sampleValue = Inr w \<and>
        fromDynamoDBValue decimalRuntime w = Inr sampleValue)"
proof -
  have a: "canonical sampleValue" by code_simp
  have b: "''__proto__'' \<notin> set (keysOf sampleValue)" by code_simp
  have c: "\<forall>n \<in> set (numbersOf sampleValue).
             parseFloatStr decimalRuntime (numToString decimalRuntime n) = n"
    by code_simp
  from a b c codec_round_trip [OF a b c] show ?thesis by (simp add: list_all_iff)
qed

text \<open>
  C3 as stated fails: the assignment \<^verbatim>\<open>mapVal["__proto__"] = ...\<close> creates no own property, so
  a mapping with that key is encoded, and decoded, as the empty mapping.
\<close>

theorem codec_round_trip_counterexample:
  "canonical (JObj [(''__proto__'', JStr ''x'')]) \<and>
   toDynamoDBValue decimalRuntime (JObj [(''__proto__'', JStr ''x'')]) = Inr (JObj [(''M'', JObj [])]) \<and>
   fromDynamoDBValue decimalRuntime (JObj [(''M'', JObj [])]) = Inr (JObj []) \<and>
   JObj [] \<noteq> JObj [(''__proto__'', JStr ''x'')]"
  by code_simp

section \<open>The expression builder: placeholders\<close>

subsection \<open>Placeholder names are injective\<close>

lemma digit_cases: "d < (10::nat) \<Longrightarrow> d \<in> {0, 1, 2, 3, 4, 5, 6, 7, 8, 9}"
  by auto

lemma digitValue_evals:
  "digitValue (digitChars ! 0) = Some 0" "digitValue (digitChars ! 1) = Some 1"
  "digitValue (digitChars ! 2) = Some 2" "digitValue (digitChars ! 3) = Some 3"
  "digitValue (digitChars ! 4) = Some 4" "digitValue (digitChars ! 5) = Some 5"
  "digitValue (digitChars ! 6) = Some 6" "digitValue (digitChars ! 7) = Some 7"
  "digitValue (digitChars ! 8) = Some 8" "digitValue (digitChars ! 9) = Some 9"
  by (simp_all add: digitValue_def digitChars_def)

lemma digitValue_digitChars:
  assumes "d < 10"
  shows "digitValue (digitChars ! d) = Some d"
proof -
  from assms have "d \<in> {0, 1, 2, 3, 4, 5, 6, 7, 8, 9}" by (rule digit_cases)
  then show ?thesis using digitValue_evals by (elim insertE emptyE) simp_all
qed

lemma length_digitChars: "length digitChars = 10"
  by (simp add: digitChars_def)

lemma digitChars_nth_mem: "d < 10 \<Longrightarrow> digitChars ! d \<in> set digitChars"
  by (rule nth_mem) (simp add: length_digitChars)

lemma parseDigits_append:
  "parseDigits (xs @ ys) acc =
     (case parseDigits xs acc of None \<Rightarrow> None | Some a \<Rightarrow> parseDigits ys a)"
  by (induction xs arbitrary: acc) (auto split: option.splits)

lemma parseDigits_natToString: "parseDigits (natToString n) 0 = Some n"
proof (induction n rule: natToString.induct)
  case (1 n)
  show ?case
  proof (cases "n < 10")
    case True
    then show ?thesis
      by (simp add: natToString.simps [of n] digitValue_digitChars)
  next
    case False
    with 1 have "parseDigits (natToString (n div 10)) 0 = Some (n div 10)" by simp
    moreover have "digitValue (digitChars ! (n mod 10)) = Some (n mod 10)"
      by (simp add: digitValue_digitChars)
    ultimately show ?thesis using False
      by (simp add: natToString.simps [of n] parseDigits_append)
  qed
qed

lemma natToString_inj: "natToString m = natToString n \<Longrightarrow> m = n"
  by (metis option.inject parseDigits_natToString)

lemma natToString_digits: "set (natToString n) \<subseteq> set digitChars"
proof (induction n rule: natToString.induct)
  case (1 n)
  show ?case
  proof (cases "n < 10")
    case True
    then show ?thesis by (simp add: natToString.simps [of n] digitChars_nth_mem)
  next
    case False
    with 1 have "set (natToString (n div 10)) \<subseteq> set digitChars" by simp
    moreover have "digitChars ! (n mod 10) \<in> set digitChars" by (simp add: digitChars_nth_mem)
    ultimately show ?thesis using False by (simp add: natToString.simps [of n])
  qed
qed

lemma underscore_not_digit: "CHR ''_'' \<notin> set (natToString n)"
  using natToString_digits [of n] by (auto simp: digitChars_def)

lemma append_sep_inj:
  "c \<notin> set a \<Longrightarrow> c \<notin> set a' \<Longrightarrow> a @ c # b = a' @ c # b' \<Longrightarrow> a = a' \<and> b = b'"
proof (induction a arbitrary: a')
  case Nil
  then show ?case by (cases a') auto
next
  case (Cons x a)
  then show ?case by (cases a') auto
qed

lemma keyName_inj: "keyName i j = keyName i' j' \<Longrightarrow> i = i' \<and> j = j'"
proof -
  assume "keyName i j = keyName i' j'"
  then have "natToString i @ CHR ''_'' # natToString j = natToString i' @ CHR ''_'' # natToString j'"
    by (simp add: keyName_def)
  then have "natToString i = natToString i' \<and> natToString j = natToString j'"
    by (rule append_sep_inj [OF underscore_not_digit underscore_not_digit])
  then show ?thesis by (simp add: natToString_inj)
qed

lemma valNameAt_inj: "valNameAt i j = valNameAt i' j' \<Longrightarrow> i = i' \<and> j = j'"
proof -
  assume "valNameAt i j = valNameAt i' j'"
  then have "natToString i @ CHR ''_'' # natToString j = natToString i' @ CHR ''_'' # natToString j'"
    by (simp add: valNameAt_def)
  then have "natToString i = natToString i' \<and> natToString j = natToString j'"
    by (rule append_sep_inj [OF underscore_not_digit underscore_not_digit])
  then show ?thesis by (simp add: natToString_inj)
qed

lemma valName_inj: "valName i = valName i' \<Longrightarrow> i = i'"
  by (auto simp: valName_def dest: natToString_inj)

lemma valName_neq_valNameAt: "valName i \<noteq> valNameAt i' j"
proof
  assume "valName i = valNameAt i' j"
  then have "natToString i = natToString i' @ CHR ''_'' # natToString j"
    by (simp add: valName_def valNameAt_def)
  then have "CHR ''_'' \<in> set (natToString i)" by simp
  with underscore_not_digit show False by blast
qed

lemma pk_neq_keyName: "''#pk'' \<noteq> keyName i j"
  by (simp add: keyName_def)

lemma pkVal_neq_valName: "'':pkVal'' \<noteq> valName i" "'':pkVal'' \<noteq> valNameAt i j"
  by (simp_all add: valName_def valNameAt_def)

lemma keyName_not_proto: "keyName i j \<noteq> ''__proto__''"
  by (simp add: keyName_def)

lemma valName_not_proto: "valName i \<noteq> ''__proto__''" "valNameAt i j \<noteq> ''__proto__''"
  by (simp_all add: valName_def valNameAt_def)

subsection \<open>What one sub-expression writes\<close>

definition subNameKeys :: "nat \<Rightarrow> string \<Rightarrow> string list" where
  "subNameKeys index fld = map (keyName index) [0..<length (splitOn CHR ''.'' fld)]"

definition subValueKeys :: "nat \<Rightarrow> string \<Rightarrow> jsval \<Rightarrow> string list" where
  "subValueKeys index oper v =
     (if oper = ''in'' \<or> oper = ''not in''
      then map (valNameAt index) [0..<length (coerceToArray v)]
      else [valName index])"

lemma names_update_same:
  "ExpressionAttributeNames expr = Some ns \<Longrightarrow> expr\<lparr>ExpressionAttributeNames := Some ns\<rparr> = expr"
  by (cases expr) simp

lemma values_update_same:
  "ExpressionAttributeValues expr = Some vs \<Longrightarrow> expr\<lparr>ExpressionAttributeValues := Some vs\<rparr> = expr"
  by (cases expr) simp

lemma assignName_fresh:
  assumes "ExpressionAttributeNames expr = Some ns" "k \<noteq> ''__proto__''" "k \<notin> fst ` set ns"
  shows "assignName k v expr = Inr (expr\<lparr>ExpressionAttributeNames := Some (ns @ [(k, v)])\<rparr>)"
  using assms by (simp add: assignName_def setProp_fresh)

lemma assignValue_fresh:
  assumes "ExpressionAttributeValues expr = Some vs" "k \<noteq> ''__proto__''" "k \<notin> fst ` set vs"
  shows "assignValue k v expr = Inr (expr\<lparr>ExpressionAttributeValues := Some (vs @ [(k, v)])\<rparr>)"
  using assms by (simp add: assignValue_def setProp_fresh)

lemma assignPathParts_fresh:
  assumes "ExpressionAttributeNames expr = Some ns"
    and "\<forall>j. idx \<le> j \<longrightarrow> keyName index j \<notin> fst ` set ns"
  shows "assignPathParts index idx parts expr =
           Inr (expr\<lparr>ExpressionAttributeNames :=
                  Some (ns @ zip (map (keyName index) [idx..<idx + length parts]) parts)\<rparr>)"
  using assms
proof (induction parts arbitrary: idx expr ns)
  case Nil
  then show ?case by (simp add: names_update_same)
next
  case (Cons part parts)
  let ?k = "keyName index idx"
  let ?expr = "expr\<lparr>ExpressionAttributeNames := Some (ns @ [(?k, part)])\<rparr>"
  have step: "assignName ?k part expr = Inr ?expr"
    using Cons.prems by (intro assignName_fresh) (simp_all add: keyName_not_proto)
  have names: "ExpressionAttributeNames ?expr = Some (ns @ [(?k, part)])" by simp
  have fresh: "\<forall>j. Suc idx \<le> j \<longrightarrow> keyName index j \<notin> fst ` set (ns @ [(?k, part)])"
  proof (intro allI impI)
    fix j assume j: "Suc idx \<le> j"
    then have "keyName index j \<noteq> ?k" using keyName_inj [of index j index idx] by auto
    moreover from j Cons.prems(2) have "keyName index j \<notin> fst ` set ns" by simp
    ultimately show "keyName index j \<notin> fst ` set (ns @ [(?k, part)])" by auto
  qed
  have up: "[idx..<Suc (idx + length parts)] = idx # [Suc idx..<Suc (idx + length parts)]"
    by (rule upt_conv_Cons) simp
  show ?case
    using step Cons.IH [OF names fresh] by (simp add: up del: upt_Suc)
qed

lemma inConditions_fresh:
  assumes "ExpressionAttributeValues expr = Some vs"
    and "\<forall>k. i \<le> k \<longrightarrow> valNameAt index k \<notin> fst ` set vs"
    and "inConditions rt path index i xs expr = Inr (expr', conds)"
  shows "\<exists>ws. toDynamoDBValues rt xs = Inr ws \<and>
           expr' = expr\<lparr>ExpressionAttributeValues :=
                     Some (vs @ zip (map (valNameAt index) [i..<i + length xs]) ws)\<rparr> \<and>
           conds = map (\<lambda>k. path @ '' = '' @ valNameAt index k) [i..<i + length xs]"
  using assms
proof (induction xs arbitrary: i expr vs expr' conds)
  case Nil
  then show ?case by (simp add: values_update_same)
next
  case (Cons x xs)
  let ?k = "valNameAt index i"
  from Cons.prems(3) obtain w where w: "toDynamoDBValue rt x = Inr w"
    by (auto split: sum.splits)
  let ?expr = "expr\<lparr>ExpressionAttributeValues := Some (vs @ [(?k, w)])\<rparr>"
  have step: "assignValue ?k w expr = Inr ?expr"
    using Cons.prems by (intro assignValue_fresh) (simp_all add: valName_not_proto)
  from Cons.prems(3) w step obtain conds' where
    rest: "inConditions rt path index (Suc i) xs ?expr = Inr (expr', conds')"
    and conds: "conds = (path @ '' = '' @ ?k) # conds'"
    by (auto split: sum.splits)
  have vals: "ExpressionAttributeValues ?expr = Some (vs @ [(?k, w)])" by simp
  have fresh: "\<forall>k. Suc i \<le> k \<longrightarrow> valNameAt index k \<notin> fst ` set (vs @ [(?k, w)])"
  proof (intro allI impI)
    fix k assume k: "Suc i \<le> k"
    then have "valNameAt index k \<noteq> ?k" using valNameAt_inj [of index k index i] by auto
    moreover from k Cons.prems(2) have "valNameAt index k \<notin> fst ` set vs" by simp
    ultimately show "valNameAt index k \<notin> fst ` set (vs @ [(?k, w)])" by auto
  qed
  from Cons.IH [OF vals fresh rest] obtain ws where
    ws: "toDynamoDBValues rt xs = Inr ws"
    and e: "expr' = ?expr\<lparr>ExpressionAttributeValues :=
              Some ((vs @ [(?k, w)]) @ zip (map (valNameAt index) [Suc i..<Suc i + length xs]) ws)\<rparr>"
    and c: "conds' = map (\<lambda>k. path @ '' = '' @ valNameAt index k) [Suc i..<Suc i + length xs]"
    by blast
  have up: "[i..<Suc (i + length xs)] = i # [Suc i..<Suc (i + length xs)]"
    by (rule upt_conv_Cons) simp
  show ?case
    using w ws e c conds by (intro exI [of _ "w # ws"]) (simp add: up del: upt_Suc)
qed

lemma bindValue_fresh:
  assumes "ExpressionAttributeValues expr = Some vs" "valName index \<notin> fst ` set vs"
    and "bindValue rt index v expr = Inr expr'"
  shows "\<exists>w. toDynamoDBValue rt v = Inr w \<and>
           expr' = expr\<lparr>ExpressionAttributeValues := Some (vs @ [(valName index, w)])\<rparr>"
proof -
  from assms(3) obtain w where w: "toDynamoDBValue rt v = Inr w"
    by (auto simp: bindValue_def split: sum.splits)
  with assms(3) have "assignValue (valName index) w expr = Inr expr'"
    by (simp add: bindValue_def)
  with assignValue_fresh [OF assms(1) valName_not_proto(1) assms(2), of w] w
  show ?thesis by simp
qed

lemma length_toDynamoDBValues: "toDynamoDBValues rt xs = Inr ws \<Longrightarrow> length ws = length xs"
  by (induction xs arbitrary: ws) (auto split: sum.splits)


definition freshFor :: "nat \<Rightarrow> string list \<Rightarrow> string list \<Rightarrow> bool" where
  "freshFor i nameKeys valueKeys =
     (\<forall>i' j. i \<le> i' \<longrightarrow>
        keyName i' j \<notin> set nameKeys \<and> valName i' \<notin> set valueKeys \<and>
        valNameAt i' j \<notin> set valueKeys)"

lemma set_subNameKeys: "k \<in> set (subNameKeys index fld) \<Longrightarrow> \<exists>j. k = keyName index j"
  by (auto simp: subNameKeys_def)

lemma set_subValueKeys:
  "k \<in> set (subValueKeys index oper v) \<Longrightarrow> k = valName index \<or> (\<exists>j. k = valNameAt index j)"
  by (auto simp: subValueKeys_def split: if_splits)

lemma freshFor_step:
  assumes "freshFor i nks vks"
  shows "freshFor (Suc i) (nks @ subNameKeys i fld) (vks @ subValueKeys i oper v)"
  unfolding freshFor_def
proof (intro allI impI conjI)
  fix i' j assume i': "Suc i \<le> i'"
  then have le: "i \<le> i'" and ne: "i' \<noteq> i" by simp_all
  show "keyName i' j \<notin> set (nks @ subNameKeys i fld)"
  proof
    assume "keyName i' j \<in> set (nks @ subNameKeys i fld)"
    with assms le have "keyName i' j \<in> set (subNameKeys i fld)" by (auto simp: freshFor_def)
    then obtain j' where "keyName i' j = keyName i j'" using set_subNameKeys by blast
    with keyName_inj ne show False by blast
  qed
  show "valName i' \<notin> set (vks @ subValueKeys i oper v)"
  proof
    assume "valName i' \<in> set (vks @ subValueKeys i oper v)"
    with assms le have "valName i' \<in> set (subValueKeys i oper v)" by (auto simp: freshFor_def)
    then have "valName i' = valName i \<or> (\<exists>j'. valName i' = valNameAt i j')"
      by (rule set_subValueKeys)
    with valName_inj valName_neq_valNameAt ne show False by blast
  qed
  show "valNameAt i' j \<notin> set (vks @ subValueKeys i oper v)"
  proof
    assume "valNameAt i' j \<in> set (vks @ subValueKeys i oper v)"
    with assms le have "valNameAt i' j \<in> set (subValueKeys i oper v)" by (auto simp: freshFor_def)
    then have "valNameAt i' j = valName i \<or> (\<exists>j'. valNameAt i' j = valNameAt i j')"
      by (rule set_subValueKeys)
    with valNameAt_inj valName_neq_valNameAt [of i i' j] ne show False by metis
  qed
qed

lemma buildSubExpression_writes:
  assumes names: "ExpressionAttributeNames expr = Some ns"
    and vals: "ExpressionAttributeValues expr = Some vs"
    and fresh: "freshFor index (map fst ns) (map fst vs)"
    and res: "buildSubExpression rt expr fld oper v index = Inr (expr', sub)"
  shows "\<exists>N V. expr' = expr\<lparr>ExpressionAttributeNames := Some (ns @ N),
                           ExpressionAttributeValues := Some (vs @ V)\<rparr> \<and>
               map fst N = subNameKeys index fld \<and>
               map fst V = subValueKeys index oper v"
proof -
  let ?parts = "splitOn CHR ''.'' fld"
  let ?N = "zip (map (keyName index) [0..<length ?parts]) ?parts"
  let ?expr1 = "expr\<lparr>ExpressionAttributeNames := Some (ns @ ?N)\<rparr>"
  have f1: "\<forall>j. 0 \<le> j \<longrightarrow> keyName index j \<notin> fst ` set ns"
    using fresh by (auto simp: freshFor_def)
  have p: "assignPathParts index 0 ?parts expr = Inr ?expr1"
    using assignPathParts_fresh [OF names f1, of ?parts] by simp
  have N: "map fst ?N = subNameKeys index fld" by (simp add: subNameKeys_def)
  have vals1: "ExpressionAttributeValues ?expr1 = Some vs" using vals by simp
  have fv: "valName index \<notin> fst ` set vs" using fresh by (auto simp: freshFor_def)
  have fa: "\<forall>k. 0 \<le> k \<longrightarrow> valNameAt index k \<notin> fst ` set vs"
    using fresh by (auto simp: freshFor_def)
  show ?thesis
  proof (cases "oper = ''in'' \<or> oper = ''not in''")
    case True
    with res p obtain conds where
      c: "inConditions rt (pathOf index ?parts) index 0 (coerceToArray v) ?expr1 = Inr (expr', conds)"
      by (auto simp: buildSubExpression_def Let_def coerceToArray_def split: sum.splits if_splits)
    from inConditions_fresh [OF vals1 fa c] obtain ws where
      ws: "toDynamoDBValues rt (coerceToArray v) = Inr ws"
      and e: "expr' = ?expr1\<lparr>ExpressionAttributeValues :=
                 Some (vs @ zip (map (valNameAt index) [0..<0 + length (coerceToArray v)]) ws)\<rparr>"
      by blast
    let ?V = "zip (map (valNameAt index) [0..<length (coerceToArray v)]) ws"
    have "length ws = length (coerceToArray v)" using ws by (rule length_toDynamoDBValues)
    then have V: "map fst ?V = subValueKeys index oper v"
      using True by (simp add: subValueKeys_def)
    from e have "expr' = expr\<lparr>ExpressionAttributeNames := Some (ns @ ?N),
                               ExpressionAttributeValues := Some (vs @ ?V)\<rparr>"
      by simp
    with N V show ?thesis by blast
  next
    case False
    with res p have "bindValue rt index v ?expr1 = Inr expr'"
      by (auto simp: buildSubExpression_def Let_def split: sum.splits if_splits option.splits)
    from bindValue_fresh [OF vals1 fv this] obtain w where
      e: "expr' = ?expr1\<lparr>ExpressionAttributeValues := Some (vs @ [(valName index, w)])\<rparr>"
      by blast
    let ?V = "[(valName index, w)]"
    have V: "map fst ?V = subValueKeys index oper v"
      using False by (simp add: subValueKeys_def)
    from e have "expr' = expr\<lparr>ExpressionAttributeNames := Some (ns @ ?N),
                               ExpressionAttributeValues := Some (vs @ ?V)\<rparr>"
      by simp
    with N V show ?thesis by blast
  qed
qed

fun residualNameKeys :: "nat \<Rightarrow> filterQuery list \<Rightarrow> string list" where
  "residualNameKeys i [] = []"
| "residualNameKeys i (f # fs) = subNameKeys i (field f) @ residualNameKeys (Suc i) fs"

fun residualValueKeys :: "nat \<Rightarrow> filterQuery list \<Rightarrow> string list" where
  "residualValueKeys i [] = []"
| "residualValueKeys i (f # fs) =
     subValueKeys i (operator f) (filterValue f) @ residualValueKeys (Suc i) fs"

lemma buildSubExpressions_writes:
  assumes "ExpressionAttributeNames expr = Some ns"
    and "ExpressionAttributeValues expr = Some vs"
    and "freshFor i (map fst ns) (map fst vs)"
    and "buildSubExpressions rt i fs expr = Inr (expr', subs)"
  shows "\<exists>N V. expr' = expr\<lparr>ExpressionAttributeNames := Some (ns @ N),
                           ExpressionAttributeValues := Some (vs @ V)\<rparr> \<and>
               map fst N = residualNameKeys i fs \<and>
               map fst V = residualValueKeys i fs"
  using assms
proof (induction fs arbitrary: i expr ns vs expr' subs)
  case Nil
  then show ?case
    by (cases expr) auto
next
  case (Cons f fs)
  from Cons.prems(4) obtain expr1 sub subs' where
    one: "buildSubExpression rt expr (field f) (operator f) (filterValue f) i = Inr (expr1, sub)"
    and rest: "buildSubExpressions rt (Suc i) fs expr1 = Inr (expr', subs')"
    by (auto split: sum.splits prod.splits)
  from buildSubExpression_writes [OF Cons.prems(1,2,3) one] obtain N1 V1 where
    e1: "expr1 = expr\<lparr>ExpressionAttributeNames := Some (ns @ N1),
                        ExpressionAttributeValues := Some (vs @ V1)\<rparr>"
    and N1: "map fst N1 = subNameKeys i (field f)"
    and V1: "map fst V1 = subValueKeys i (operator f) (filterValue f)"
    by blast
  have n1: "ExpressionAttributeNames expr1 = Some (ns @ N1)" using e1 by simp
  have v1: "ExpressionAttributeValues expr1 = Some (vs @ V1)" using e1 by simp
  have fr: "freshFor (Suc i) (map fst (ns @ N1)) (map fst (vs @ V1))"
    using freshFor_step [OF Cons.prems(3), of "field f" "operator f" "filterValue f"] N1 V1
    by simp
  from Cons.IH [OF n1 v1 fr rest] obtain N2 V2 where
    e2: "expr' = expr1\<lparr>ExpressionAttributeNames := Some ((ns @ N1) @ N2),
                        ExpressionAttributeValues := Some ((vs @ V1) @ V2)\<rparr>"
    and N2: "map fst N2 = residualNameKeys (Suc i) fs"
    and V2: "map fst V2 = residualValueKeys (Suc i) fs"
    by blast
  from e1 e2 have "expr' = expr\<lparr>ExpressionAttributeNames := Some (ns @ (N1 @ N2)),
                                 ExpressionAttributeValues := Some (vs @ (V1 @ V2))\<rparr>"
    by simp
  moreover have "map fst (N1 @ N2) = residualNameKeys i (f # fs)" using N1 N2 by simp
  moreover have "map fst (V1 @ V2) = residualValueKeys i (f # fs)" using V1 V2 by simp
  ultimately show ?case by blast
qed


subsection \<open>The generated placeholder names are pairwise distinct\<close>

definition generatedNameKeys :: "string \<Rightarrow> filterQuery list \<Rightarrow> string list" where
  "generatedNameKeys pkName filters =
     (case extractPartitionKeyFilter pkName filters of
        (pkFilter, remainingFilters) \<Rightarrow>
          (case pkFilter of None \<Rightarrow> [] | Some _ \<Rightarrow> [''#pk'']) @ residualNameKeys 0 remainingFilters)"

definition generatedValueKeys :: "string \<Rightarrow> filterQuery list \<Rightarrow> string list" where
  "generatedValueKeys pkName filters =
     (case extractPartitionKeyFilter pkName filters of
        (pkFilter, remainingFilters) \<Rightarrow>
          (case pkFilter of None \<Rightarrow> [] | Some _ \<Rightarrow> ['':pkVal'']) @ residualValueKeys 0 remainingFilters)"

lemma distinct_subNameKeys: "distinct (subNameKeys i fld)"
  unfolding subNameKeys_def
  by (simp add: distinct_map inj_on_def) (metis keyName_inj)

lemma distinct_subValueKeys: "distinct (subValueKeys i oper v)"
  unfolding subValueKeys_def
  by (simp add: distinct_map inj_on_def) (metis valNameAt_inj)

lemma set_residualNameKeys:
  "k \<in> set (residualNameKeys i fs) \<Longrightarrow> \<exists>i' j. i \<le> i' \<and> k = keyName i' j"
proof (induction fs arbitrary: i)
  case Nil
  then show ?case by simp
next
  case (Cons f fs)
  then consider "k \<in> set (subNameKeys i (field f))" | "k \<in> set (residualNameKeys (Suc i) fs)"
    by auto
  then show ?case
  proof cases
    case 1
    then obtain j where "k = keyName i j" using set_subNameKeys by blast
    then show ?thesis by blast
  next
    case 2
    with Cons.IH obtain i' j where "Suc i \<le> i'" "k = keyName i' j" by blast
    then show ?thesis by (intro exI [of _ i'] exI [of _ j]) simp
  qed
qed

lemma set_residualValueKeys:
  "k \<in> set (residualValueKeys i fs) \<Longrightarrow>
     \<exists>i'. i \<le> i' \<and> (k = valName i' \<or> (\<exists>j. k = valNameAt i' j))"
proof (induction fs arbitrary: i)
  case Nil
  then show ?case by simp
next
  case (Cons f fs)
  then consider "k \<in> set (subValueKeys i (operator f) (filterValue f))"
    | "k \<in> set (residualValueKeys (Suc i) fs)"
    by auto
  then show ?case
  proof cases
    case 1
    then have "k = valName i \<or> (\<exists>j. k = valNameAt i j)" by (rule set_subValueKeys)
    then show ?thesis by blast
  next
    case 2
    with Cons.IH obtain i' where "Suc i \<le> i'" "k = valName i' \<or> (\<exists>j. k = valNameAt i' j)"
      by blast
    then show ?thesis by (intro exI [of _ i']) simp
  qed
qed

lemma distinct_residualNameKeys: "distinct (residualNameKeys i fs)"
proof (induction fs arbitrary: i)
  case Nil
  then show ?case by simp
next
  case (Cons f fs)
  have "set (subNameKeys i (field f)) \<inter> set (residualNameKeys (Suc i) fs) = {}"
  proof (rule ccontr)
    assume "set (subNameKeys i (field f)) \<inter> set (residualNameKeys (Suc i) fs) \<noteq> {}"
    then obtain k where a: "k \<in> set (subNameKeys i (field f))"
      and b: "k \<in> set (residualNameKeys (Suc i) fs)" by blast
    from a obtain j where "k = keyName i j" using set_subNameKeys by blast
    moreover from b obtain i' j' where "Suc i \<le> i'" "k = keyName i' j'"
      using set_residualNameKeys by blast
    ultimately show False using keyName_inj [of i j i' j'] by simp
  qed
  with Cons.IH [of "Suc i"] distinct_subNameKeys show ?case by simp
qed

lemma distinct_residualValueKeys: "distinct (residualValueKeys i fs)"
proof (induction fs arbitrary: i)
  case Nil
  then show ?case by simp
next
  case (Cons f fs)
  have "set (subValueKeys i (operator f) (filterValue f)) \<inter> set (residualValueKeys (Suc i) fs) = {}"
  proof (rule ccontr)
    assume "set (subValueKeys i (operator f) (filterValue f)) \<inter>
            set (residualValueKeys (Suc i) fs) \<noteq> {}"
    then obtain k where a: "k \<in> set (subValueKeys i (operator f) (filterValue f))"
      and b: "k \<in> set (residualValueKeys (Suc i) fs)" by blast
    from a have a': "k = valName i \<or> (\<exists>j. k = valNameAt i j)" by (rule set_subValueKeys)
    from b obtain i' where i': "Suc i \<le> i'" and b': "k = valName i' \<or> (\<exists>j. k = valNameAt i' j)"
      using set_residualValueKeys by blast
    from i' have ne: "i \<noteq> i'" by simp
    from a' b' ne show False
      using valName_inj [of i i'] valName_neq_valNameAt valNameAt_inj by metis
  qed
  with Cons.IH [of "Suc i"] distinct_subValueKeys show ?case by simp
qed

lemma pk_not_residual: "''#pk'' \<notin> set (residualNameKeys i fs)"
  using set_residualNameKeys [of "''#pk''" i fs] pk_neq_keyName by blast

lemma pkVal_not_residual: "'':pkVal'' \<notin> set (residualValueKeys i fs)"
  using set_residualValueKeys [of "'':pkVal''" i fs] pkVal_neq_valName by blast

lemma distinct_generatedNameKeys: "distinct (generatedNameKeys pkName filters)"
  by (auto simp: generatedNameKeys_def distinct_residualNameKeys pk_not_residual
           split: prod.splits option.splits)

lemma distinct_generatedValueKeys: "distinct (generatedValueKeys pkName filters)"
  by (auto simp: generatedValueKeys_def distinct_residualValueKeys pkVal_not_residual
           split: prod.splits option.splits)

lemma freshFor_empty: "freshFor 0 [] []"
  by (simp add: freshFor_def)

lemma freshFor_pk: "freshFor 0 [''#pk''] ['':pkVal'']"
  using pk_neq_keyName pkVal_neq_valName by (simp add: freshFor_def) metis

lemma addPartitionKeyExpression_writes:
  assumes "ExpressionAttributeNames expr = Some []" "ExpressionAttributeValues expr = Some []"
    and "addPartitionKeyExpression rt expr pkFilter = Inr expr'"
  shows "\<exists>w. expr' = expr\<lparr>KeyConditionExpression := Some ''#pk = :pkVal'',
                         ExpressionAttributeNames := Some [(''#pk'', field pkFilter)],
                         ExpressionAttributeValues := Some [('':pkVal'', w)]\<rparr>"
  using assms
  by (auto simp: addPartitionKeyExpression_def assignName_def assignValue_def setProp_def
           split: sum.splits)

lemma buildFilterExpression_keys:
  assumes "filters \<noteq> []" "buildFilterExpression rt pkName filters = Inr e"
  shows "\<exists>N V. ExpressionAttributeNames e = Some N \<and> ExpressionAttributeValues e = Some V \<and>
               map fst N = generatedNameKeys pkName filters \<and>
               map fst V = generatedValueKeys pkName filters"
proof -
  obtain pkFilter rest where ex: "extractPartitionKeyFilter pkName filters = (pkFilter, rest)"
    by (cases "extractPartitionKeyFilter pkName filters")
  let ?expr0 = "emptyExpression\<lparr>ExpressionAttributeNames := Some [],
                                 ExpressionAttributeValues := Some []\<rparr>"
  from assms ex obtain expr1 where
    pk: "(case pkFilter of None \<Rightarrow> Inr ?expr0
          | Some pk \<Rightarrow> addPartitionKeyExpression rt ?expr0 pk) = Inr expr1"
    and fin: "(if rest \<noteq> [] then addFilterExpressions rt expr1 rest else Inr expr1) = Inr e"
    by (auto simp: buildFilterExpression_def Let_def split: sum.splits)
  let ?pn = "case pkFilter of None \<Rightarrow> [] | Some _ \<Rightarrow> [''#pk'']"
  let ?pv = "case pkFilter of None \<Rightarrow> [] | Some _ \<Rightarrow> ['':pkVal'']"
  have "\<exists>N1 V1. ExpressionAttributeNames expr1 = Some N1 \<and> ExpressionAttributeValues expr1 = Some V1 \<and>
          map fst N1 = ?pn \<and> map fst V1 = ?pv \<and> freshFor 0 (map fst N1) (map fst V1)"
  proof (cases pkFilter)
    case None
    with pk show ?thesis by (auto simp: freshFor_empty)
  next
    case (Some pkf)
    with pk have "addPartitionKeyExpression rt ?expr0 pkf = Inr expr1" by simp
    from addPartitionKeyExpression_writes [OF _ _ this] obtain w where
      "expr1 = ?expr0\<lparr>KeyConditionExpression := Some ''#pk = :pkVal'',
                         ExpressionAttributeNames := Some [(''#pk'', field pkf)],
                         ExpressionAttributeValues := Some [('':pkVal'', w)]\<rparr>"
      by auto
    with Some show ?thesis by (simp add: freshFor_pk)
  qed
  then obtain N1 V1 where n1: "ExpressionAttributeNames expr1 = Some N1"
    and v1: "ExpressionAttributeValues expr1 = Some V1"
    and k1: "map fst N1 = ?pn" "map fst V1 = ?pv"
    and fr: "freshFor 0 (map fst N1) (map fst V1)"
    by blast
  show ?thesis
  proof (cases "rest = []")
    case True
    with fin n1 v1 k1 ex show ?thesis
      by (simp add: generatedNameKeys_def generatedValueKeys_def)
  next
    case False
    with fin obtain expr2 subs where
      b: "buildSubExpressions rt 0 rest expr1 = Inr (expr2, subs)"
      and e: "e = expr2\<lparr>FilterExpression := Some (joinWith '' AND '' subs)\<rparr>"
      by (auto simp: addFilterExpressions_def split: sum.splits)
    from buildSubExpressions_writes [OF n1 v1 fr b] obtain N V where
      "expr2 = expr1\<lparr>ExpressionAttributeNames := Some (N1 @ N),
                       ExpressionAttributeValues := Some (V1 @ V)\<rparr>"
      "map fst N = residualNameKeys 0 rest" "map fst V = residualValueKeys 0 rest"
      by blast
    with e k1 ex show ?thesis
      by (simp add: generatedNameKeys_def generatedValueKeys_def)
  qed
qed

text \<open>
  C2. When the builder returns an expression for a non-empty filter list, the keys of its
  name map are exactly the generated name placeholders (\<^verbatim>\<open>#pk\<close>, then \<^verbatim>\<open>#key{i}_{j}\<close> for
  every residual predicate \<open>i\<close> and path segment \<open>j\<close>), the keys of its value map are
  exactly the generated value placeholders (\<^verbatim>\<open>:pkVal\<close>, then \<^verbatim>\<open>:val{i}\<close> or
  \<^verbatim>\<open>:val{i}_{k}\<close>), one entry per assignment, and they are pairwise distinct: no
  assignment has overwritten another.
\<close>

theorem placeholders_never_collide:
  assumes "filters \<noteq> []" and "buildFilterExpression rt pkName filters = Inr e"
  shows "\<exists>N V. ExpressionAttributeNames e = Some N \<and> ExpressionAttributeValues e = Some V \<and>
               map fst N = generatedNameKeys pkName filters \<and>
               map fst V = generatedValueKeys pkName filters \<and>
               distinct (generatedNameKeys pkName filters) \<and>
               distinct (generatedValueKeys pkName filters)"
  using buildFilterExpression_keys [OF assms] distinct_generatedNameKeys distinct_generatedValueKeys
  by blast

definition sampleFilters :: "filterQuery list" where
  "sampleFilters =
     [\<lparr>field = ''a.b'', operator = ''not in'', filterValue = JNum (Fin 3)\<rparr>,
      \<lparr>field = ''id'', operator = ''='', filterValue = JStr ''123''\<rparr>,
      \<lparr>field = ''id'', operator = ''='', filterValue = JStr ''4''\<rparr>,
      \<lparr>field = ''tags'', operator = ''in'', filterValue = JArr [JStr ''a'', JStr ''b'']\<rparr>,
      \<lparr>field = ''x'', operator = ''like'', filterValue = JArr [JNum (Fin 1), JStr ''text'', JBool True]\<rparr>]"

definition sampleExpression :: expression where
  "sampleExpression =
     \<lparr> TableName = None,
       KeyConditionExpression = Some ''#pk = :pkVal'',
       FilterExpression = Some
         (''NOT (#key0_0.#key0_1 = :val0_0) AND #key1_0 = :val1 AND '' @
          ''(#key2_0 = :val2_0 OR #key2_0 = :val2_1) AND contains(#key3_0, :val3)''),
       ExpressionAttributeNames = Some
         [(''#pk'', ''id''), (''#key0_0'', ''a''), (''#key0_1'', ''b''), (''#key1_0'', ''id''),
          (''#key2_0'', ''tags''), (''#key3_0'', ''x'')],
       ExpressionAttributeValues = Some
         [('':pkVal'', JObj [(''S'', JStr ''123'')]),
          ('':val0_0'', JObj [(''N'', JStr ''3'')]),
          ('':val1'', JObj [(''S'', JStr ''4'')]),
          ('':val2_0'', JObj [(''S'', JStr ''a'')]),
          ('':val2_1'', JObj [(''S'', JStr ''b'')]),
          ('':val3'', JObj [(''L'', JArr [JObj [(''N'', JStr ''1'')], JObj [(''S'', JStr ''text'')],
                                       JObj [(''BOOL'', JBool True)]])])],
       ScanIndexForward = None \<rparr>"

theorem placeholders_never_collide_witness:
  "sampleFilters \<noteq> [] \<and>
   buildFilterExpression decimalRuntime ''id'' sampleFilters = Inr sampleExpression \<and>
   generatedNameKeys ''id'' sampleFilters =
     [''#pk'', ''#key0_0'', ''#key0_1'', ''#key1_0'', ''#key2_0'', ''#key3_0''] \<and>
   generatedValueKeys ''id'' sampleFilters =
     ['':pkVal'', '':val0_0'', '':val1'', '':val2_0'', '':val2_1'', '':val3''] \<and>
   (\<exists>N V. ExpressionAttributeNames sampleExpression = Some N \<and>
          ExpressionAttributeValues sampleExpression = Some V \<and>
          map fst N = generatedNameKeys ''id'' sampleFilters \<and>
          map fst V = generatedValueKeys ''id'' sampleFilters \<and>
          distinct (generatedNameKeys ''id'' sampleFilters) \<and>
          distinct (generatedValueKeys ''id'' sampleFilters))"
proof -
  have a: "sampleFilters \<noteq> []" by (simp add: sampleFilters_def)
  have b: "buildFilterExpression decimalRuntime ''id'' sampleFilters = Inr sampleExpression"
    by code_simp
  have c: "generatedNameKeys ''id'' sampleFilters =
     [''#pk'', ''#key0_0'', ''#key0_1'', ''#key1_0'', ''#key2_0'', ''#key3_0'']"
    by code_simp
  have d: "generatedValueKeys ''id'' sampleFilters =
     ['':pkVal'', '':val0_0'', '':val1'', '':val2_0'', '':val2_1'', '':val3'']"
    by code_simp
  from a b c d placeholders_never_collide [OF a b] show ?thesis by blast
qed

section \<open>The expression builder: the two scenarios\<close>

text \<open>
  C1. With partition key \<^verbatim>\<open>id\<close>, the single predicate \<^verbatim>\<open>id = "123"\<close> gives the
  key condition \<^verbatim>\<open>#pk = :pkVal\<close>, \<^verbatim>\<open>#pk\<close> bound to \<^verbatim>\<open>id\<close>, \<^verbatim>\<open>:pkVal\<close> bound to the
  string-tagged \<^verbatim>\<open>123\<close>, and no filter expression.
\<close>

theorem buildFilterExpression_partition_key:
  "buildFilterExpression rt ''id'' [\<lparr>field = ''id'', operator = ''='', filterValue = JStr ''123''\<rparr>] =
     Inr \<lparr> TableName = None,
           KeyConditionExpression = Some ''#pk = :pkVal'',
           FilterExpression = None,
           ExpressionAttributeNames = Some [(''#pk'', ''id'')],
           ExpressionAttributeValues = Some [('':pkVal'', JObj [(''S'', JStr ''123'')])],
           ScanIndexForward = None \<rparr>"
  by code_simp

lemma inConditions_conds:
  "inConditions rt path index i xs expr = Inr (expr', conds) \<Longrightarrow>
     conds = map (\<lambda>k. path @ '' = '' @ valNameAt index k) [i..<i + length xs]"
proof (induction xs arbitrary: i expr conds)
  case Nil
  then show ?case by simp
next
  case (Cons x xs)
  from Cons.prems obtain expr1 conds' where
    rest: "inConditions rt path index (Suc i) xs expr1 = Inr (expr', conds')"
    and conds: "conds = (path @ '' = '' @ valNameAt index i) # conds'"
    by (auto split: sum.splits)
  have up: "[i..<Suc (i + length xs)] = i # [Suc i..<Suc (i + length xs)]"
    by (rule upt_conv_Cons) simp
  from Cons.IH [OF rest] conds show ?case by (simp add: up del: upt_Suc)
qed

definition tagsFilter :: filterQuery where
  "tagsFilter = \<lparr>field = ''tags'', operator = ''in'', filterValue = JArr [JStr ''a'', JStr ''b'']\<rparr>"

definition tagsExpression :: expression where
  "tagsExpression =
     \<lparr> TableName = None,
       KeyConditionExpression = None,
       FilterExpression = Some ''(#key0_0 = :val0_0 OR #key0_0 = :val0_1)'',
       ExpressionAttributeNames = Some [(''#key0_0'', ''tags'')],
       ExpressionAttributeValues = Some
         [('':val0_0'', JObj [(''S'', JStr ''a'')]), ('':val0_1'', JObj [(''S'', JStr ''b'')])],
       ScanIndexForward = None \<rparr>"

lemma tagsFilter_valid: "validateFilter rt tagsFilter = Inr ()"
  by code_simp

lemma tagsFilter_built:
  "addFilterExpressions rt
     (emptyExpression\<lparr>ExpressionAttributeNames := Some [], ExpressionAttributeValues := Some []\<rparr>)
     [tagsFilter] = Inr tagsExpression"
  by code_simp

lemma tagsFilter_residual:
  "extractPartitionKeyFilter pkName [tagsFilter] = (None, [tagsFilter])"
  by (simp add: tagsFilter_def)

text \<open>
  C4. Whatever the partition key, \<^verbatim>\<open>tags\<close> or another, the predicate \<^verbatim>\<open>tags in ["a","b"]\<close>
  gives the filter expression \<^verbatim>\<open>(#key0_0 = :val0_0 OR #key0_0 = :val0_1)\<close> with
  \<^verbatim>\<open>#key0_0\<close> bound to \<^verbatim>\<open>tags\<close> and the two value placeholders bound to the encodings
  of \<^verbatim>\<open>a\<close> and \<^verbatim>\<open>b\<close>. In general a sub-expression built for \<^verbatim>\<open>in\<close> or \<^verbatim>\<open>not in\<close> is
  the disjunction of one equality term per element of the value, a value that is not an
  array counting as its one element, in parentheses, after \<^verbatim>\<open>NOT\<close> for \<^verbatim>\<open>not in\<close>.
\<close>

theorem in_operator_expansion:
  "buildFilterExpression rt pkName [tagsFilter] = Inr tagsExpression
   \<and> ((oper = ''in'' \<or> oper = ''not in'') \<and>
       buildSubExpression rt expr fld oper v index = Inr (expr', sub)
       \<longrightarrow> sub = (if oper = ''in'' then ''('' else ''NOT ('') @
                 joinWith '' OR ''
                   (map (\<lambda>k. pathOf index (splitOn CHR ''.'' fld) @ '' = '' @ valNameAt index k)
                      [0..<length (coerceToArray v)]) @ '')'')
   \<and> (\<not> isArray v \<longrightarrow> coerceToArray v = [v])"
proof (intro conjI impI)
  show "buildFilterExpression rt pkName [tagsFilter] = Inr tagsExpression"
    by (simp add: buildFilterExpression_def tagsFilter_valid tagsFilter_residual tagsFilter_built
             del: extractPartitionKeyFilter.simps)
next
  assume h: "(oper = ''in'' \<or> oper = ''not in'') \<and>
             buildSubExpression rt expr fld oper v index = Inr (expr', sub)"
  let ?path = "pathOf index (splitOn CHR ''.'' fld)"
  from h obtain expr1 conds where
    c: "inConditions rt ?path index 0 (coerceToArray v) expr1 = Inr (expr', conds)"
    and s: "sub = (if oper = ''in'' then ''('' @ joinWith '' OR '' conds @ '')''
                   else ''NOT ('' @ joinWith '' OR '' conds @ '')'')"
    by (auto simp: buildSubExpression_def Let_def split: sum.splits if_splits)
  from inConditions_conds [OF c] s
  show "sub = (if oper = ''in'' then ''('' else ''NOT ('') @
                 joinWith '' OR ''
                   (map (\<lambda>k. ?path @ '' = '' @ valNameAt index k) [0..<length (coerceToArray v)]) @ '')''"
    by simp
next
  assume "\<not> isArray v"
  then show "coerceToArray v = [v]" by (cases v) (simp_all add: coerceToArray_def)
qed

theorem in_operator_expansion_witness:
  "buildFilterExpression decimalRuntime ''id'' [tagsFilter] = Inr tagsExpression \<and>
   buildSubExpression decimalRuntime
     (emptyExpression\<lparr>ExpressionAttributeNames := Some [], ExpressionAttributeValues := Some []\<rparr>)
     ''a.b'' ''not in'' (JNum (Fin 3)) 0
     = Inr (emptyExpression\<lparr>ExpressionAttributeNames := Some [(''#key0_0'', ''a''), (''#key0_1'', ''b'')],
                             ExpressionAttributeValues := Some [('':val0_0'', JObj [(''N'', JStr ''3'')])]\<rparr>,
            ''NOT (#key0_0.#key0_1 = :val0_0)'') \<and>
   ''NOT (#key0_0.#key0_1 = :val0_0)'' =
     (if ''not in'' = ''in'' then ''('' else ''NOT ('') @
       joinWith '' OR ''
         (map (\<lambda>k. pathOf 0 (splitOn CHR ''.'' ''a.b'') @ '' = '' @ valNameAt 0 k)
            [0..<length (coerceToArray (JNum (Fin 3)))]) @ '')'' \<and>
   \<not> isArray (JNum (Fin 3)) \<and> coerceToArray (JNum (Fin 3)) = [JNum (Fin 3)]"
proof -
  have b: "buildSubExpression decimalRuntime
     (emptyExpression\<lparr>ExpressionAttributeNames := Some [], ExpressionAttributeValues := Some []\<rparr>)
     ''a.b'' ''not in'' (JNum (Fin 3)) 0
     = Inr (emptyExpression\<lparr>ExpressionAttributeNames := Some [(''#key0_0'', ''a''), (''#key0_1'', ''b'')],
                             ExpressionAttributeValues := Some [('':val0_0'', JObj [(''N'', JStr ''3'')])]\<rparr>,
            ''NOT (#key0_0.#key0_1 = :val0_0)'')"
    by code_simp
  have c: "\<not> isArray (JNum (Fin 3))" by simp
  from b c
    in_operator_expansion [where rt = decimalRuntime and pkName = "''id''" and oper = "''not in''"
      and expr = "emptyExpression\<lparr>ExpressionAttributeNames := Some [],
                                  ExpressionAttributeValues := Some []\<rparr>"
      and fld = "''a.b''" and v = "JNum (Fin 3)" and index = 0
      and expr' = "emptyExpression\<lparr>ExpressionAttributeNames :=
                                     Some [(''#key0_0'', ''a''), (''#key0_1'', ''b'')],
                                   ExpressionAttributeValues :=
                                     Some [('':val0_0'', JObj [(''N'', JStr ''3'')])]\<rparr>"
      and sub = "''NOT (#key0_0.#key0_1 = :val0_0)''"]
  show ?thesis by simp
qed

section \<open>Pagination is validated first\<close>



























section \<open>The result processor: empty results\<close>

text \<open>
  C8. When the limit is zero, or the offset is at least the number of raw items, the
  result processor returns the empty sequence, whatever the decoders are, also decoders
  that raise on every input: no decode call is made.
\<close>

theorem processResults_empty_without_decoding:
  "limit = Fin 0 \<or> geNum offset (Fin (of_nat (length items)))
   \<longrightarrow> processResultsWith rt decodeValue decodeItem items limit offset pagination = Inr []
       \<and> processResults rt items limit offset pagination = Inr []"
  by (auto simp: processResults_def processResultsWith_def)

definition threeItems :: "jsval list" where
  "threeItems =
     [JObj [(''id'', JObj [(''N'', JStr ''3'')])],
      JObj [(''id'', JObj [(''N'', JStr ''1'')])],
      JObj [(''id'', JObj [(''N'', JStr ''2'')])]]"

definition failingDecoder :: "'a \<Rightarrow> jsval result" where
  "failingDecoder v = Inl (TypeError ''decoder called'')"

theorem processResults_empty_without_decoding_witness:
  "processResultsWith decimalRuntime failingDecoder failingDecoder threeItems (Fin 0) (Fin 1)
     (JObj [(''sortBy'', JStr ''id'')]) = Inr [] \<and>
   geNum (Fin 3) (Fin (of_nat (length threeItems))) \<and>
   processResultsWith decimalRuntime failingDecoder failingDecoder threeItems (Fin 10) (Fin 3)
     (JObj [(''sortBy'', JStr ''id'')]) = Inr [] \<and>
   processResults decimalRuntime threeItems (Fin 10) (Fin 3) (JObj [(''sortBy'', JStr ''id'')]) = Inr [] \<and>
   processResultsWith decimalRuntime failingDecoder failingDecoder threeItems (Fin 10) (Fin 2)
     (JObj []) = Inl (TypeError ''decoder called'') \<and>
   processResults decimalRuntime threeItems (Fin 10) (Fin 2) (JObj [(''sortBy'', JStr ''id'')])
     = Inr [JObj [(''id'', JNum (Fin 3))]]"
proof -
  have a: "geNum (Fin 3) (Fin (of_nat (length threeItems)))" by (simp add: threeItems_def)
  have b: "processResultsWith decimalRuntime failingDecoder failingDecoder threeItems (Fin 10) (Fin 2)
     (JObj []) = Inl (TypeError ''decoder called'')"
    by code_simp
  have c: "processResults decimalRuntime threeItems (Fin 10) (Fin 2) (JObj [(''sortBy'', JStr ''id'')])
     = Inr [JObj [(''id'', JNum (Fin 3))]]"
    by code_simp
  from a b c
    processResults_empty_without_decoding [where limit = "Fin 0" and offset = "Fin 1"
      and items = threeItems and rt = decimalRuntime and decodeValue = failingDecoder
      and decodeItem = failingDecoder and pagination = "JObj [(''sortBy'', JStr ''id'')]"]
    processResults_empty_without_decoding [where limit = "Fin 10" and offset = "Fin 3"
      and items = threeItems and rt = decimalRuntime and decodeValue = failingDecoder
      and decodeItem = failingDecoder and pagination = "JObj [(''sortBy'', JStr ''id'')]"]
  show ?thesis by simp
qed

section \<open>The result processor: sorting\<close>

subsection \<open>Insertion sort with a comparator that does not raise\<close>

















subsection \<open>The comparator, in the words of the specification\<close>










subsection \<open>The sequence before the slice\<close>



















end
